theory Spec2Isabelle
  imports Complex_Main "HOL-Library.Sublist" "HOL-Library.Char_ord" "HOL-Library.List_Lexorder"
    "HOL-Library.Multiset"
begin

section \<open>Python list primitives used by the application\<close>

text \<open>
  \<^verbatim>\<open>xs.sort(key=k, reverse=True)\<close> and \<^verbatim>\<open>sorted(xs, key=k, reverse=True)\<close>:
  CPython reverses the list, sorts it stably in ascending key order and reverses the
  result, so items with equal keys keep their original relative order.
  \<open>sort_key\<close> is the stable insertion sort of the HOL library.
\<close>

definition py_sorted_reverse :: "('a \<Rightarrow> 'k::linorder) \<Rightarrow> 'a list \<Rightarrow> 'a list" where
  "py_sorted_reverse k xs = rev (sort_key k (rev xs))"

text \<open>
  A Python number is an \<^verbatim>\<open>int\<close> or a \<^verbatim>\<open>float\<close>. A float is a finite double,
  given by its exact value; infinities and NaN are not modelled. The arithmetic on
  floats rounds, so it is never computed here: \<^verbatim>\<open>/\<close> and \<^verbatim>\<open>round\<close> are
  parameters wherever the source uses them. The truth value of a number is that it is
  not zero.
\<close>

datatype py_number = IntNum int | FloatNum rat

fun number_truthy :: "py_number \<Rightarrow> bool" where
  "number_truthy (IntNum i) \<longleftrightarrow> i \<noteq> 0"
| "number_truthy (FloatNum x) \<longleftrightarrow> x \<noteq> 0"

section \<open>Transcoder: quality parameter\<close>

text \<open>\<^verbatim>\<open>crf_for_height\<close> (app.py, lines 106-117): a chain of early returns.\<close>

definition crf_for_height :: "int \<Rightarrow> int" where
  "crf_for_height height =
     (if height \<ge> 2160 then 20
      else if height \<ge> 1440 then 21
      else if height \<ge> 1080 then 22
      else if height \<ge> 720 then 23
      else if height \<ge> 480 then 24
      else 25)"

section \<open>Rendition planning\<close>

text \<open>
  Lines 487-491 of \<^verbatim>\<open>upload\<close>. \<^verbatim>\<open>set(requested_resolutions)\<close> removes
  duplicates; its iteration order is unspecified, and the sort that follows makes the
  result independent of it, so \<open>remdups\<close> stands for the set.
\<close>

definition requested_sorted :: "int list \<Rightarrow> int list" where
  "requested_sorted requested_resolutions =
     py_sorted_reverse (\<lambda>r. r) (remdups requested_resolutions)"

definition eligible_resolutions :: "int \<Rightarrow> int list \<Rightarrow> int list" where
  "eligible_resolutions source_height requested_resolutions =
     filter (\<lambda>res. res \<le> source_height) (requested_sorted requested_resolutions)"

definition skipped_resolutions :: "int \<Rightarrow> int list \<Rightarrow> int list" where
  "skipped_resolutions source_height requested_resolutions =
     filter (\<lambda>res. res > source_height) (requested_sorted requested_resolutions)"

definition targets :: "int \<Rightarrow> int list \<Rightarrow> int list" where
  "targets source_height requested_resolutions =
     source_height #
     filter (\<lambda>res. res < source_height)
       (eligible_resolutions source_height requested_resolutions)"

section \<open>Manifest documents\<close>

text \<open>
  The manifest is the dictionary written by \<^verbatim>\<open>upload\<close> (lines 536-551) and read back
  with \<^verbatim>\<open>json.load\<close>. Each dictionary with a fixed set of keys is a record; a key
  that may be missing is an \<open>option\<close> field, \<open>None\<close> being what \<^verbatim>\<open>d.get(key)\<close>
  returns when the key is absent. A value that is present has the type the writer gives
  it: heights, widths and sizes are integers, durations and bitrates are floats (modelled
  as exact rationals), the master flag is a boolean.
\<close>

record segment =
  seg_index :: nat
  seg_path :: string
  seg_size_bytes :: nat
  seg_duration :: int
  seg_label :: string

record variant =
  v_label :: "string option"
  v_height :: "int option"
  v_width :: "int option"
  v_duration :: "rat option"
  v_file :: "string option"
  v_segments :: "segment list option"
  v_is_master :: "bool option"
  v_size_bytes :: "nat option"
  v_bitrate_kbps :: "rat option"

record source_media =
  src_filename :: "string option"
  src_path :: "string option"
  src_width :: "int option"
  src_height :: "int option"
  src_duration :: "rat option"

record manifest =
  m_playlist_id :: "string option"
  m_created_at :: "string option"
  m_created_at_ts :: "rat option"
  m_segment_duration :: "int option"
  m_requested_resolutions :: "int list option"
  m_skipped_resolutions :: "int list option"
  m_source :: "source_media option"
  m_variants :: "variant list option"

section \<open>Presenter: the playlist summary\<close>

text \<open>The dictionaries \<^verbatim>\<open>summarise_manifest\<close> builds (lines 289-299, 322-326, 328-341).\<close>

record enriched =
  e_label :: string
  e_height :: "int option"
  e_width :: "int option"
  e_duration :: "rat option"
  e_file :: "string option"
  e_segments :: "segment list"
  e_segment_count :: nat
  e_is_master :: bool
  e_bitrate_kbps :: "rat option"

record master_view = enriched +
  e_filename :: "string option"

record source_view =
  sv_filename :: "string option"
  sv_height :: "int option"
  sv_width :: "int option"
  sv_duration :: "rat option"

record summary =
  sm_playlist_id :: "string option"
  sm_created_at :: "string option"
  sm_segment_duration :: "int option"
  sm_skipped_resolutions :: "int list"
  sm_master :: "master_view option"
  sm_variants :: "enriched list"
  sm_source :: source_view

text \<open>\<^verbatim>\<open>d.get(key, default)\<close>\<close>

definition get_default :: "'a option \<Rightarrow> 'a \<Rightarrow> 'a" where
  "get_default field dflt = (case field of None \<Rightarrow> dflt | Some x \<Rightarrow> x)"

text \<open>Lines 289-299: the view of one variant inside the loop.\<close>

definition enrich :: "variant \<Rightarrow> enriched" where
  "enrich v =
     \<lparr> e_label = get_default (v_label v) [],
       e_height = v_height v,
       e_width = v_width v,
       e_duration = v_duration v,
       e_file = v_file v,
       e_segments = get_default (v_segments v) [],
       e_segment_count = length (get_default (v_segments v) []),
       e_is_master = get_default (v_is_master v) False,
       e_bitrate_kbps = v_bitrate_kbps v \<rparr>"

text \<open>
  Lines 288-303: the loop over \<^verbatim>\<open>variants_data\<close>, threading
  \<^verbatim>\<open>(master_variant, other_variants)\<close>.
\<close>

fun scan_variants :: "variant list \<Rightarrow> enriched option \<times> enriched list
    \<Rightarrow> enriched option \<times> enriched list" where
  "scan_variants [] st = st"
| "scan_variants (v # vs) (master_variant, other_variants) =
     (if e_is_master (enrich v) \<and> master_variant = None
      then scan_variants vs (Some (enrich v), other_variants)
      else scan_variants vs (master_variant, other_variants @ [enrich v]))"

text \<open>Lines 306-317: the view built from \<^verbatim>\<open>variants_data[0]\<close> when no master was found.\<close>

definition fallback_master :: "variant \<Rightarrow> enriched" where
  "fallback_master fallback =
     \<lparr> e_label = get_default (v_label fallback) ''Master'',
       e_height = v_height fallback,
       e_width = v_width fallback,
       e_duration = v_duration fallback,
       e_file = v_file fallback,
       e_segments = get_default (v_segments fallback) [],
       e_segment_count = length (get_default (v_segments fallback) []),
       e_is_master = True,
       e_bitrate_kbps = v_bitrate_kbps fallback \<rparr>"

text \<open>The sort key of line 319: \<^verbatim>\<open>item.get("height") or 0\<close>.\<close>

definition height_key :: "enriched \<Rightarrow> int" where
  "height_key item = (case e_height item of None \<Rightarrow> 0 | Some h \<Rightarrow> h)"

text \<open>
  Lines 321-326: the master gains the key \<^verbatim>\<open>filename\<close>, the source's file name when
  the source has one and the master's own \<^verbatim>\<open>file\<close> otherwise.
\<close>

definition with_filename :: "source_media \<Rightarrow> enriched \<Rightarrow> master_view" where
  "with_filename source master_variant =
     enriched.extend master_variant
       (master_view.fields
         (case src_filename source of
            None \<Rightarrow> e_file master_variant
          | Some name \<Rightarrow> Some name))"

definition empty_source :: source_media where
  "empty_source = \<lparr> src_filename = None, src_path = None, src_width = None,
     src_height = None, src_duration = None \<rparr>"

definition summarise_manifest :: "manifest \<Rightarrow> summary" where
  "summarise_manifest manifest =
     (let source = get_default (m_source manifest) empty_source;
          variants_data = get_default (m_variants manifest) [];
          (found, other_variants) = scan_variants variants_data (None, []);
          master_variant =
            (case (found, variants_data) of
               (None, fallback # _) \<Rightarrow> Some (fallback_master fallback)
             | _ \<Rightarrow> found);
          sorted_variants = py_sorted_reverse height_key other_variants
      in \<lparr> sm_playlist_id = m_playlist_id manifest,
           sm_created_at = m_created_at manifest,
           sm_segment_duration = m_segment_duration manifest,
           sm_skipped_resolutions = get_default (m_skipped_resolutions manifest) [],
           sm_master = map_option (with_filename source) master_variant,
           sm_variants = sorted_variants,
           sm_source =
             \<lparr> sv_filename = src_filename source, sv_height = src_height source,
               sv_width = src_width source, sv_duration = src_duration source \<rparr> \<rparr>)"

text \<open>The dictionary \<^verbatim>\<open>{}\<close> read as a variant and as a manifest: every key is absent.\<close>

definition empty_variant :: variant where
  "empty_variant = \<lparr> v_label = None, v_height = None, v_width = None, v_duration = None,
     v_file = None, v_segments = None, v_is_master = None, v_size_bytes = None,
     v_bitrate_kbps = None \<rparr>"

definition empty_manifest :: manifest where
  "empty_manifest = \<lparr> m_playlist_id = None, m_created_at = None, m_created_at_ts = None,
     m_segment_duration = None, m_requested_resolutions = None,
     m_skipped_resolutions = None, m_source = None, m_variants = None \<rparr>"

section \<open>Upload form validation\<close>

text \<open>Line 38.\<close>

definition RESOLUTION_PRESETS :: "int list" where
  "RESOLUTION_PRESETS = [2160, 1440, 1080, 720, 480, 360]"

text \<open>
  Lines 443-450: the loop over \<^verbatim>\<open>request.form.getlist("resolutions")\<close>. The form
  values are strings. \<^verbatim>\<open>int(value)\<close> is Python's built-in conversion; it is a
  parameter \<open>py_int\<close> of the model, \<open>None\<close> standing for the \<^verbatim>\<open>ValueError\<close> the
  loop catches with \<^verbatim>\<open>continue\<close>.
\<close>

fun collect_resolutions :: "(string \<Rightarrow> int option) \<Rightarrow> string list \<Rightarrow> int list \<Rightarrow> int list" where
  "collect_resolutions py_int [] requested_resolutions = requested_resolutions"
| "collect_resolutions py_int (v # vs) requested_resolutions =
     (case py_int v of
        None \<Rightarrow> collect_resolutions py_int vs requested_resolutions
      | Some resolution \<Rightarrow>
          if resolution \<in> set RESOLUTION_PRESETS
          then collect_resolutions py_int vs (requested_resolutions @ [resolution])
          else collect_resolutions py_int vs requested_resolutions)"

text \<open>The messages \<^verbatim>\<open>upload\<close> flashes before it redirects (lines 435-467).\<close>

datatype validation_error =
    ChooseVideoFile
  | UnsupportedFileType
  | SelectResolution
  | InvalidSegmentDuration
  | UnsafeFilename

text \<open>Lines 452-454.\<close>

definition check_resolutions :: "(string \<Rightarrow> int option) \<Rightarrow> string list \<Rightarrow> validation_error + int list" where
  "check_resolutions py_int form_values =
     (let requested_resolutions = collect_resolutions py_int form_values []
      in if requested_resolutions = [] then Inl SelectResolution
         else Inr requested_resolutions)"

text \<open>Line 462.\<close>

definition clamp_segment_duration :: "int \<Rightarrow> int" where
  "clamp_segment_duration segment_duration = max 5 (min segment_duration 600)"

text \<open>
  Lines 39-43. \<^verbatim>\<open>filename.rsplit(".", 1)[1]\<close> is what follows the last dot.
  \<^verbatim>\<open>str.lower\<close> is Python's, defined on all of Unicode, and is a parameter
  \<open>py_lower\<close>.
\<close>

definition ALLOWED_EXTENSIONS :: "string set" where
  "ALLOWED_EXTENSIONS = {''mp4'', ''mov'', ''mkv'', ''webm''}"

definition after_last_dot :: "string \<Rightarrow> string" where
  "after_last_dot filename = rev (takeWhile (\<lambda>c. c \<noteq> CHR ''.'') (rev filename))"

definition allowed_file :: "(string \<Rightarrow> string) \<Rightarrow> string \<Rightarrow> bool" where
  "allowed_file py_lower filename \<longleftrightarrow>
     CHR ''.'' \<in> set filename \<and> py_lower (after_last_dot filename) \<in> ALLOWED_EXTENSIONS"

text \<open>
  The form as \<^verbatim>\<open>upload\<close> reads it: the file name of the uploaded file (\<open>None\<close>
  when no file part was sent), the values of the \<^verbatim>\<open>resolutions\<close> field, and the
  \<^verbatim>\<open>segment_duration\<close> field when present.
\<close>

record upload_form =
  f_filename :: "string option"
  f_resolutions :: "string list"
  f_segment_duration :: "string option"

record validated =
  ok_filename :: string
  ok_resolutions :: "int list"
  ok_segment_duration :: int

text \<open>
  Lines 434-467, the checks in the order of the source. \<^verbatim>\<open>secure_filename\<close> is
  werkzeug's and is a parameter.
\<close>

definition validate_upload ::
  "(string \<Rightarrow> int option) \<Rightarrow> (string \<Rightarrow> string) \<Rightarrow> (string \<Rightarrow> string) \<Rightarrow> upload_form
     \<Rightarrow> validation_error + validated" where
  "validate_upload py_int py_lower secure_filename form =
     (case f_filename form of
        None \<Rightarrow> Inl ChooseVideoFile
      | Some filename \<Rightarrow>
          if filename = [] then Inl ChooseVideoFile
          else if \<not> allowed_file py_lower filename then Inl UnsupportedFileType
          else
            (case check_resolutions py_int (f_resolutions form) of
               Inl e \<Rightarrow> Inl e
             | Inr requested_resolutions \<Rightarrow>
                 (case (case f_segment_duration form of
                          None \<Rightarrow> Some 30
                        | Some raw \<Rightarrow> py_int raw) of
                    None \<Rightarrow> Inl InvalidSegmentDuration
                  | Some segment_duration \<Rightarrow>
                      if secure_filename filename = [] then Inl UnsafeFilename
                      else Inr \<lparr> ok_filename = secure_filename filename,
                                 ok_resolutions = requested_resolutions,
                                 ok_segment_duration = clamp_segment_duration segment_duration \<rparr>)))"

section \<open>Text of numbers and paths\<close>

text \<open>\<^verbatim>\<open>str(n)\<close> for a natural number and for an integer, as f-strings print them.\<close>

definition digit_char :: "nat \<Rightarrow> char" where
  "digit_char d = ''0123456789'' ! d"

function str_nat :: "nat \<Rightarrow> string" where
  "str_nat n = (if n < 10 then [digit_char n] else str_nat (n div 10) @ [digit_char (n mod 10)])"
  by pat_completeness auto
termination
  by (relation "measure (\<lambda>n. n)") auto

declare str_nat.simps [simp del]

definition str_int :: "int \<Rightarrow> string" where
  "str_int i = (if i < 0 then CHR ''-'' # str_nat (nat (- i)) else str_nat (nat i))"

text \<open>
  Paths are lists of components below \<^verbatim>\<open>UPLOAD_ROOT\<close>; \<^verbatim>\<open>to_relative\<close>
  (lines 64-65) prints one with \<^verbatim>\<open>/\<close> between the components.
\<close>

type_synonym path = "string list"

fun to_relative :: "path \<Rightarrow> string" where
  "to_relative [] = ''.''"
| "to_relative [c] = c"
| "to_relative (c # cs) = c @ ''/'' @ to_relative cs"

section \<open>Segmenter: enumeration of the chunk files\<close>

text \<open>
  \<^verbatim>\<open>destination_dir.glob("*.mp4")\<close> keeps the entries of the directory whose name ends
  in \<^verbatim>\<open>.mp4\<close>.
\<close>

definition is_mp4 :: "string \<Rightarrow> bool" where
  "is_mp4 name \<longleftrightarrow> suffix ''.mp4'' name"

text \<open>
  Lines 200-211 of \<^verbatim>\<open>segment_video\<close>. \<open>names\<close> are the names of the entries of
  the destination directory after the segmenter has run, in the order the directory
  yields them, and \<open>size_of\<close> gives \<^verbatim>\<open>item.stat().st_size\<close> for a name. All the paths
  globbed share the directory, so \<^verbatim>\<open>sorted\<close> orders them by name, character by
  character (the order of \<open>HOL-Library.List_Lexorder\<close> over \<open>HOL-Library.Char_ord\<close>).
  \<^verbatim>\<open>enumerate(..., start=1)\<close> is \<open>enumerate 1\<close>.
\<close>

definition segment_entries :: "path \<Rightarrow> (string \<Rightarrow> nat) \<Rightarrow> int \<Rightarrow> string list \<Rightarrow> segment list" where
  "segment_entries destination_dir size_of segment_duration names =
     map (\<lambda>(index, item).
            \<lparr> seg_index = index,
              seg_path = to_relative (destination_dir @ [item]),
              seg_size_bytes = size_of item,
              seg_duration = segment_duration,
              seg_label = ''Segment '' @ str_nat index \<rparr>)
         (enumerate 1 (sort (filter is_mp4 names)))"

section \<open>Manifest builder: bitrate\<close>

text \<open>
  Line 516: \<^verbatim>\<open>variant_info.get("duration") or segment_duration * max(len(variant_segments), 1)\<close>.
  \<^verbatim>\<open>probe_video\<close> always returns a float under \<^verbatim>\<open>duration\<close>, and \<^verbatim>\<open>or\<close> takes
  its right operand, an \<^verbatim>\<open>int\<close>, when the left one is falsy, which for a float means
  equal to zero.
\<close>

definition variant_duration :: "rat \<Rightarrow> int \<Rightarrow> nat \<Rightarrow> py_number" where
  "variant_duration measured segment_duration segment_count =
     (if number_truthy (FloatNum measured) then FloatNum measured
      else IntNum (segment_duration * int (max segment_count 1)))"

text \<open>
  Lines 517-519. \<open>truediv\<close> is Python's \<^verbatim>\<open>/\<close> on two numbers: it is applied to
  the two integers of \<^verbatim>\<open>(variant_size_bytes * 8) / 1000\<close> and then to the resulting
  float and the duration. The guard of line 518 keeps a zero divisor away from it.
\<close>

definition bitrate_kbps :: "(py_number \<Rightarrow> py_number \<Rightarrow> rat) \<Rightarrow> nat \<Rightarrow> py_number \<Rightarrow> rat" where
  "bitrate_kbps truediv variant_size_bytes duration =
     (if number_truthy duration
      then truediv (FloatNum (truediv (IntNum (int variant_size_bytes * 8)) (IntNum 1000))) duration
      else 0)"

text \<open>Line 531: \<^verbatim>\<open>round(bitrate_kbps, 2)\<close>; \<open>round2\<close> is Python's \<^verbatim>\<open>round(x, 2)\<close>.\<close>

definition recorded_bitrate ::
  "(py_number \<Rightarrow> py_number \<Rightarrow> rat) \<Rightarrow> (rat \<Rightarrow> rat) \<Rightarrow> nat \<Rightarrow> rat \<Rightarrow> int \<Rightarrow> nat \<Rightarrow> rat" where
  "recorded_bitrate truediv round2 variant_size_bytes measured segment_duration segment_count =
     round2
       (bitrate_kbps truediv variant_size_bytes
          (variant_duration measured segment_duration segment_count))"


section \<open>The media directory\<close>

text \<open>
  The tree below \<^verbatim>\<open>UPLOAD_ROOT\<close> is an association list from paths to nodes, every
  path bound at most once. The root itself, the empty path, always exists: line 36
  creates it when the application starts.
\<close>

datatype node = Dir | File string

type_synonym fs = "(path \<times> node) list"

definition fs_lookup :: "fs \<Rightarrow> path \<Rightarrow> node option" where
  "fs_lookup fs p = (if p = [] then Some Dir else map_of fs p)"

definition fs_put :: "fs \<Rightarrow> path \<Rightarrow> node \<Rightarrow> fs" where
  "fs_put fs p n = (p, n) # filter (\<lambda>(q, _). q \<noteq> p) fs"

definition fs_rmtree :: "fs \<Rightarrow> path \<Rightarrow> fs" where
  "fs_rmtree fs p = filter (\<lambda>(q, _). \<not> prefix p q) fs"

definition fs_listdir :: "fs \<Rightarrow> path \<Rightarrow> string list" where
  "fs_listdir fs d = map (\<lambda>(q, _). last q) (filter (\<lambda>(q, _). q \<noteq> [] \<and> butlast q = d) fs)"

definition fs_size :: "fs \<Rightarrow> path \<Rightarrow> nat" where
  "fs_size fs p = (case fs_lookup fs p of Some (File bytes) \<Rightarrow> length bytes | _ \<Rightarrow> 0)"

text \<open>What the try block of \<^verbatim>\<open>upload\<close> can raise.\<close>

datatype pipeline_error = ProcessingError | FileExistsError | NotADirectoryError

text \<open>
  \<^verbatim>\<open>Path.mkdir(parents=True, exist_ok=...)\<close>: a path that exists is an error unless
  \<^verbatim>\<open>exist_ok\<close> is set and the path is a directory; missing ancestors are created,
  and an ancestor that is a plain file is an error.
\<close>

fun make_parents :: "fs \<Rightarrow> path list \<Rightarrow> pipeline_error + fs" where
  "make_parents fs [] = Inr fs"
| "make_parents fs (q # qs) =
     (case fs_lookup fs q of
        None \<Rightarrow> make_parents (fs_put fs q Dir) qs
      | Some Dir \<Rightarrow> make_parents fs qs
      | Some (File _) \<Rightarrow> Inl NotADirectoryError)"

definition mkdir :: "fs \<Rightarrow> path \<Rightarrow> bool \<Rightarrow> pipeline_error + fs" where
  "mkdir fs p exist_ok =
     (case fs_lookup fs p of
        Some n \<Rightarrow> if exist_ok \<and> n = Dir then Inr fs else Inl FileExistsError
      | None \<Rightarrow>
          (case make_parents fs (butlast (prefixes p)) of
             Inl e \<Rightarrow> Inl e
           | Inr fs' \<Rightarrow> Inr (fs_put fs' p Dir)))"

text \<open>
  \<^verbatim>\<open>cleanup_playlist\<close> (lines 220-222). \<^verbatim>\<open>shutil.rmtree\<close> removes a directory
  with everything below it and raises on a plain file.
\<close>

definition cleanup_playlist :: "fs \<Rightarrow> path \<Rightarrow> pipeline_error + fs" where
  "cleanup_playlist fs p =
     (case fs_lookup fs p of
        None \<Rightarrow> Inr fs
      | Some Dir \<Rightarrow> Inr (fs_rmtree fs p)
      | Some (File _) \<Rightarrow> Inl NotADirectoryError)"

section \<open>Saving the manifest\<close>

text \<open>
  Lines 553-554: \<^verbatim>\<open>manifest_path.open("w")\<close> creates the file or truncates it to
  nothing, and \<^verbatim>\<open>json.dump\<close> then writes the document to the handle chunk by
  chunk. \<open>write_states\<close> lists the states the tree goes through: first the empty file,
  then the file after each chunk. (With a buffered handle the chunks reach the file in
  groups; the empty file and the complete file are states in any case.)
\<close>

definition write_states :: "fs \<Rightarrow> path \<Rightarrow> string list \<Rightarrow> fs list" where
  "write_states fs p chunks =
     map (\<lambda>k. fs_put fs p (File (concat (take k chunks)))) [0 ..< Suc (length chunks)]"

definition save_manifest :: "fs \<Rightarrow> path \<Rightarrow> string list \<Rightarrow> fs" where
  "save_manifest fs p chunks = last (write_states fs p chunks)"

section \<open>Probing\<close>

text \<open>
  What \<^verbatim>\<open>ffprobe\<close> answers for a file: the command fails (missing binary or
  non-zero exit), its output is not JSON, or the output is a JSON payload, of which
  \<^verbatim>\<open>probe_video\<close> reads the width and the height of the first stream (when present)
  and the duration of the format (\<open>None\<close> when absent or when \<^verbatim>\<open>float\<close> rejects it).
\<close>

datatype ffprobe_result =
    FFprobeFailed
  | FFprobeNotJson
  | FFprobePayload "int option" "int option" "rat option"

record video_info =
  vi_width :: int
  vi_height :: int
  vi_duration :: rat

text \<open>\<^verbatim>\<open>probe_video\<close> (lines 68-103), from the answer of \<^verbatim>\<open>ffprobe\<close> on.\<close>

definition probe_video :: "ffprobe_result \<Rightarrow> pipeline_error + video_info" where
  "probe_video answer =
     (case answer of
        FFprobeFailed \<Rightarrow> Inl ProcessingError
      | FFprobeNotJson \<Rightarrow> Inl ProcessingError
      | FFprobePayload w h d \<Rightarrow>
          (let width = get_default w 0;
               height = get_default h 0;
               duration = get_default d 0
           in if width = 0 \<or> height = 0 then Inl ProcessingError
              else Inr \<lparr> vi_width = width, vi_height = height, vi_duration = duration \<rparr>))"

section \<open>The pipeline\<close>

text \<open>
  The external programs and the clock, as functions of what the source passes to them:
  \<^verbatim>\<open>ffprobe\<close> of a file's bytes; the encoder of the source bytes, the target height,
  the quality parameter and the segment duration (\<open>None\<close> when the command fails); the
  segmenter of a file's bytes and the segment duration, giving the chunks in order; the
  chunks \<^verbatim>\<open>json.dump\<close> writes for a manifest; and the two readings of
  \<^verbatim>\<open>datetime.utcnow()\<close> of lines 535-539. With them come the two operations of
  Python's float arithmetic the pipeline uses, \<^verbatim>\<open>/\<close> and \<^verbatim>\<open>round(x, 2)\<close>.
\<close>

record tools =
  ffprobe :: "string \<Rightarrow> ffprobe_result"
  ffmpeg_transcode :: "string \<Rightarrow> int \<Rightarrow> int \<Rightarrow> int \<Rightarrow> string option"
  ffmpeg_segment :: "string \<Rightarrow> int \<Rightarrow> string list option"
  json_dump :: "manifest \<Rightarrow> string list"
  now_isoformat :: string
  now_timestamp :: rat
  py_truediv :: "py_number \<Rightarrow> py_number \<Rightarrow> rat"
  py_round2 :: "rat \<Rightarrow> rat"

text \<open>
  \<^verbatim>\<open>Path(name).stem\<close>: the name without its last suffix; a leading dot or a trailing
  dot starts no suffix.
\<close>

definition path_stem :: "string \<Rightarrow> string" where
  "path_stem name =
     (let ext = after_last_dot name;
          i = length name - length ext - 1
      in if CHR ''.'' \<in> set name \<and> 0 < i \<and> ext \<noteq> [] then take i name else name)"

text \<open>
  The segmenter fills the pattern \<^verbatim>\<open>{stem}_part_%03d.mp4\<close> of line 171 with the
  number of the chunk, counted from 0 and padded with zeros to three digits.
\<close>

definition pad3 :: "nat \<Rightarrow> string" where
  "pad3 n = replicate (3 - length (str_nat n)) (CHR ''0'') @ str_nat n"

definition chunk_name :: "string \<Rightarrow> nat \<Rightarrow> string" where
  "chunk_name stem i = stem @ ''_part_'' @ pad3 i @ ''.mp4''"

fun write_chunks :: "fs \<Rightarrow> path \<Rightarrow> string \<Rightarrow> nat \<Rightarrow> string list \<Rightarrow> fs" where
  "write_chunks fs d stem i [] = fs"
| "write_chunks fs d stem i (c # cs) =
     write_chunks (fs_put fs (d @ [chunk_name stem i]) (File c)) d stem (Suc i) cs"

text \<open>\<^verbatim>\<open>transcode_variant\<close> (lines 120-162).\<close>

definition transcode_variant ::
  "tools \<Rightarrow> fs \<Rightarrow> string \<Rightarrow> path \<Rightarrow> int \<Rightarrow> int \<Rightarrow> (pipeline_error \<times> fs) + (fs \<times> video_info)" where
  "transcode_variant t fs source_bytes output_path target_height segment_duration =
     (case mkdir fs (butlast output_path) True of
        Inl e \<Rightarrow> Inl (e, fs)
      | Inr fs1 \<Rightarrow>
          (case ffmpeg_transcode t source_bytes target_height
                  (crf_for_height target_height) segment_duration of
             None \<Rightarrow> Inl (ProcessingError, fs1)
           | Some output_bytes \<Rightarrow>
               (let fs2 = fs_put fs1 output_path (File output_bytes)
                in case probe_video (ffprobe t output_bytes) of
                     Inl e \<Rightarrow> Inl (e, fs2)
                   | Inr info \<Rightarrow> Inr (fs2, info))))"

text \<open>\<^verbatim>\<open>segment_video\<close> (lines 165-211).\<close>

definition segment_video ::
  "tools \<Rightarrow> fs \<Rightarrow> path \<Rightarrow> path \<Rightarrow> int \<Rightarrow> (pipeline_error \<times> fs) + (fs \<times> segment list)" where
  "segment_video t fs source_path destination_dir segment_duration =
     (case mkdir fs destination_dir True of
        Inl e \<Rightarrow> Inl (e, fs)
      | Inr fs1 \<Rightarrow>
          (case ffmpeg_segment t
                  (case fs_lookup fs1 source_path of Some (File bytes) \<Rightarrow> bytes | _ \<Rightarrow> [])
                  segment_duration of
             None \<Rightarrow> Inl (ProcessingError, fs1)
           | Some chunks \<Rightarrow>
               (let fs2 = write_chunks fs1 destination_dir (path_stem (last source_path)) 0 chunks
                in Inr (fs2,
                     segment_entries destination_dir
                       (\<lambda>item. fs_size fs2 (destination_dir @ [item]))
                       segment_duration (fs_listdir fs2 destination_dir)))))"

text \<open>Lines 496-533: the body of the loop over the targets, for one target.\<close>

definition process_target ::
  "tools \<Rightarrow> path \<Rightarrow> path \<Rightarrow> string \<Rightarrow> string \<Rightarrow> int \<Rightarrow> int \<Rightarrow> fs \<Rightarrow> int
     \<Rightarrow> (pipeline_error \<times> fs) + (fs \<times> variant)" where
  "process_target t variants_dir segments_dir source_bytes base_stem segment_duration
       source_height fs target =
     (let variant_dir = variants_dir @ [str_int target @ ''p''];
          variant_filename = base_stem @ ''_'' @ str_int target @ ''p.mp4'';
          variant_path = variant_dir @ [variant_filename]
      in case mkdir fs variant_dir True of
           Inl e \<Rightarrow> Inl (e, fs)
         | Inr fs1 \<Rightarrow>
             (case transcode_variant t fs1 source_bytes variant_path target segment_duration of
                Inl ef \<Rightarrow> Inl ef
              | Inr (fs2, variant_info) \<Rightarrow>
                  (case segment_video t fs2 variant_path
                          (segments_dir @ [str_int target @ ''p'']) segment_duration of
                     Inl ef \<Rightarrow> Inl ef
                   | Inr (fs3, variant_segments) \<Rightarrow>
                       Inr (fs3,
                         \<lparr> v_label = Some (str_int target @ ''p''
                               @ (if target = source_height then '' (master)'' else [])),
                           v_height = Some (vi_height variant_info),
                           v_width = Some (vi_width variant_info),
                           v_duration = Some (vi_duration variant_info),
                           v_file = Some (to_relative variant_path),
                           v_segments = Some variant_segments,
                           v_is_master = Some (target = source_height),
                           v_size_bytes = Some (fs_size fs3 variant_path),
                           v_bitrate_kbps = Some
                             (recorded_bitrate (py_truediv t) (py_round2 t)
                                (fs_size fs3 variant_path)
                                (vi_duration variant_info) segment_duration
                                (length variant_segments)) \<rparr>))))"

fun process_targets ::
  "tools \<Rightarrow> path \<Rightarrow> path \<Rightarrow> string \<Rightarrow> string \<Rightarrow> int \<Rightarrow> int \<Rightarrow> int list \<Rightarrow> fs \<Rightarrow> variant list
     \<Rightarrow> (pipeline_error \<times> fs) + (fs \<times> variant list)" where
  "process_targets t vd sd source_bytes base_stem segment_duration source_height [] fs
       manifest_variants = Inr (fs, manifest_variants)"
| "process_targets t vd sd source_bytes base_stem segment_duration source_height
       (target # rest) fs manifest_variants =
     (case process_target t vd sd source_bytes base_stem segment_duration source_height
             fs target of
        Inl ef \<Rightarrow> Inl ef
      | Inr (fs', v) \<Rightarrow>
          process_targets t vd sd source_bytes base_stem segment_duration source_height
            rest fs' (manifest_variants @ [v]))"

text \<open>
  Lines 476-554: the try block of \<^verbatim>\<open>upload\<close>. An error comes with the tree as it
  is when the error is raised.
\<close>

definition upload_try ::
  "tools \<Rightarrow> fs \<Rightarrow> string \<Rightarrow> string \<Rightarrow> string \<Rightarrow> int list \<Rightarrow> int
     \<Rightarrow> (pipeline_error \<times> fs) + (fs \<times> manifest)" where
  "upload_try t fs playlist_id safe_filename uploaded_bytes requested_resolutions
       segment_duration =
     (let playlist_dir = [playlist_id];
          source_dir = playlist_dir @ [''source''];
          variants_dir = playlist_dir @ [''variants''];
          segments_dir = playlist_dir @ [''segments''];
          manifest_path = playlist_dir @ [''manifest.json'']
      in case mkdir fs source_dir False of
           Inl e \<Rightarrow> Inl (e, fs)
         | Inr fs1 \<Rightarrow>
       (case mkdir fs1 variants_dir False of
           Inl e \<Rightarrow> Inl (e, fs1)
         | Inr fs2 \<Rightarrow>
       (case mkdir fs2 segments_dir False of
           Inl e \<Rightarrow> Inl (e, fs2)
         | Inr fs3 \<Rightarrow>
       (let original_path = source_dir @ [safe_filename];
            fs4 = fs_put fs3 original_path (File uploaded_bytes)
        in case probe_video (ffprobe t uploaded_bytes) of
             Inl e \<Rightarrow> Inl (e, fs4)
           | Inr source_info \<Rightarrow>
         (let source_height = vi_height source_info
          in case process_targets t variants_dir segments_dir uploaded_bytes
                    (path_stem safe_filename) segment_duration source_height
                    (targets source_height requested_resolutions) fs4 [] of
               Inl ef \<Rightarrow> Inl ef
             | Inr (fs5, manifest_variants) \<Rightarrow>
                 (let manifest_payload =
                        \<lparr> m_playlist_id = Some playlist_id,
                          m_created_at = Some (now_isoformat t @ ''Z''),
                          m_created_at_ts = Some (now_timestamp t),
                          m_segment_duration = Some segment_duration,
                          m_requested_resolutions =
                            Some (requested_sorted requested_resolutions),
                          m_skipped_resolutions =
                            Some (skipped_resolutions source_height requested_resolutions),
                          m_source = Some
                            \<lparr> src_filename = Some safe_filename,
                              src_path = Some (to_relative original_path),
                              src_width = Some (vi_width source_info),
                              src_height = Some (vi_height source_info),
                              src_duration = Some (vi_duration source_info) \<rparr>,
                          m_variants = Some manifest_variants \<rparr>
                  in Inr (save_manifest fs5 manifest_path (json_dump t manifest_payload),
                          manifest_payload)))))))"

text \<open>
  Lines 556-571: how \<^verbatim>\<open>upload\<close> ends. Both handlers call \<^verbatim>\<open>cleanup_playlist\<close>
  on the playlist directory and report the error; an error of the cleanup itself leaves
  the handler.
\<close>

datatype outcome = Completed | Failed pipeline_error | Raised pipeline_error

definition upload_pipeline ::
  "tools \<Rightarrow> fs \<Rightarrow> string \<Rightarrow> string \<Rightarrow> string \<Rightarrow> int list \<Rightarrow> int \<Rightarrow> outcome \<times> fs" where
  "upload_pipeline t fs playlist_id safe_filename uploaded_bytes requested_resolutions
       segment_duration =
     (case upload_try t fs playlist_id safe_filename uploaded_bytes requested_resolutions
             segment_duration of
        Inr (fs', _) \<Rightarrow> (Completed, fs')
      | Inl (e, fs') \<Rightarrow>
          (case cleanup_playlist fs' [playlist_id] of
             Inr fs'' \<Rightarrow> (Failed e, fs'')
           | Inl e' \<Rightarrow> (Raised e', fs')))"

section \<open>Catalog listing\<close>

text \<open>
  \<^verbatim>\<open>list_manifests\<close> reads whatever files stand under the root, so what
  \<^verbatim>\<open>json.load\<close> returns is any JSON value, as Python holds it: \<^verbatim>\<open>None\<close>, a
  \<^verbatim>\<open>bool\<close>, a number, a \<^verbatim>\<open>str\<close>, a \<^verbatim>\<open>list\<close>, or a \<^verbatim>\<open>dict\<close>, given by its
  items in insertion order, the keys pairwise different. The numbers are the finite ones:
  the literals \<^verbatim>\<open>NaN\<close> and \<^verbatim>\<open>Infinity\<close>, which \<^verbatim>\<open>json.load\<close> reads as well, are
  left out.
\<close>

datatype json =
    JNull
  | JBool bool
  | JNum py_number
  | JStr string
  | JArr "json list"
  | JObj "(string \<times> json) list"

text \<open>The truth value of a loaded value, as \<^verbatim>\<open>or\<close> and \<^verbatim>\<open>if\<close> test it.\<close>

fun json_truthy :: "json \<Rightarrow> bool" where
  "json_truthy JNull \<longleftrightarrow> False"
| "json_truthy (JBool b) \<longleftrightarrow> b"
| "json_truthy (JNum n) \<longleftrightarrow> number_truthy n"
| "json_truthy (JStr s) \<longleftrightarrow> s \<noteq> []"
| "json_truthy (JArr xs) \<longleftrightarrow> xs \<noteq> []"
| "json_truthy (JObj items) \<longleftrightarrow> items \<noteq> []"

definition json_or :: "json \<Rightarrow> json \<Rightarrow> json" where
  "json_or x y = (if json_truthy x then x else y)"

text \<open>
  What \<^verbatim>\<open>list_manifests\<close> can raise: an exception of \<^verbatim>\<open>open\<close> or
  \<^verbatim>\<open>json.load\<close> that line 243 does not catch, and the errors of the code that
  follows.
\<close>

datatype listing_error = LoadError | AttributeError | TypeError | ValueError | OverflowError

text \<open>
  \<^verbatim>\<open>d.get(key, default)\<close>: only a \<^verbatim>\<open>dict\<close> has the method; on any other value the
  attribute lookup raises \<^verbatim>\<open>AttributeError\<close>. \<^verbatim>\<open>d.get(key)\<close> is the case of the
  default \<^verbatim>\<open>None\<close>.
\<close>

definition dict_get :: "json \<Rightarrow> string \<Rightarrow> json \<Rightarrow> listing_error + json" where
  "dict_get d key dflt =
     (case d of
        JObj items \<Rightarrow> Inr (case map_of items key of None \<Rightarrow> dflt | Some v \<Rightarrow> v)
      | _ \<Rightarrow> Inl AttributeError)"

text \<open>
  \<^verbatim>\<open>for variant in variants\<close>: a list yields its elements, a dict its keys, a string
  its characters as strings; anything else is not iterable.
\<close>

definition json_iter :: "json \<Rightarrow> listing_error + json list" where
  "json_iter j =
     (case j of
        JArr xs \<Rightarrow> Inr xs
      | JObj items \<Rightarrow> Inr (map (\<lambda>(k, _). JStr k) items)
      | JStr s \<Rightarrow> Inr (map (\<lambda>c. JStr [c]) s)
      | _ \<Rightarrow> Inl TypeError)"

text \<open>
  What \<^verbatim>\<open>list_manifests\<close> meets at one \<^verbatim>\<open>*/manifest.json\<close>: \<^verbatim>\<open>open\<close> or the
  read raises \<^verbatim>\<open>OSError\<close>; \<^verbatim>\<open>json.load\<close> raises \<^verbatim>\<open>JSONDecodeError\<close>; they
  raise something else (\<^verbatim>\<open>UnicodeDecodeError\<close> on bytes that are not UTF-8,
  \<^verbatim>\<open>RecursionError\<close> on deep nesting); or \<^verbatim>\<open>json.load\<close> returns a value.
\<close>

datatype load_result = RaisedOSError | RaisedJSONDecodeError | RaisedOther | Loaded json

text \<open>
  A manifest file: the name of its playlist directory, the result of loading it, and its
  modification time (\<open>None\<close> when \<^verbatim>\<open>stat\<close> raises \<^verbatim>\<open>OSError\<close>).
\<close>

record manifest_file =
  mf_dir :: string
  mf_load :: load_result
  mf_mtime :: "rat option"

record catalog_entry =
  ce_id :: json
  ce_title :: json
  ce_created_at :: json
  ce_resolutions :: "string list"
  ce_created_at_ts :: json

text \<open>
  Lines 257-263: the labels of the heights, each once, in order of first occurrence.
  \<open>py_format\<close> is how an f-string prints a value.
\<close>

fun collect_labels :: "(json \<Rightarrow> string) \<Rightarrow> json list \<Rightarrow> string list \<Rightarrow> listing_error + string list" where
  "collect_labels py_format [] resolutions = Inr resolutions"
| "collect_labels py_format (variant # rest) resolutions =
     (case dict_get variant ''height'' JNull of
        Inl e \<Rightarrow> Inl e
      | Inr height \<Rightarrow>
          if json_truthy height
          then (if py_format height @ ''p'' \<in> set resolutions
                then collect_labels py_format rest resolutions
                else collect_labels py_format rest (resolutions @ [py_format height @ ''p'']))
          else collect_labels py_format rest resolutions)"

text \<open>Lines 246-273: the entry of one loaded document, or the error it raises.\<close>

definition catalog_entry_of :: "(json \<Rightarrow> string) \<Rightarrow> manifest_file \<Rightarrow> json \<Rightarrow> listing_error + catalog_entry" where
  "catalog_entry_of py_format file data =
     (case dict_get data ''playlist_id'' JNull of
        Inl e \<Rightarrow> Inl e
      | Inr id_field \<Rightarrow>
     (case dict_get data ''source'' (JObj []) of
        Inl e \<Rightarrow> Inl e
      | Inr source \<Rightarrow>
     (case dict_get source ''filename'' JNull of
        Inl e \<Rightarrow> Inl e
      | Inr name_field \<Rightarrow>
     (case dict_get data ''created_at'' JNull of
        Inl e \<Rightarrow> Inl e
      | Inr created_at \<Rightarrow>
     (case dict_get data ''created_at_ts'' JNull of
        Inl e \<Rightarrow> Inl e
      | Inr ts_field \<Rightarrow>
     (case dict_get data ''variants'' (JArr []) of
        Inl e \<Rightarrow> Inl e
      | Inr variants \<Rightarrow>
     (case json_iter variants of
        Inl e \<Rightarrow> Inl e
      | Inr variant_list \<Rightarrow>
     (case collect_labels py_format variant_list [] of
        Inl e \<Rightarrow> Inl e
      | Inr resolutions \<Rightarrow>
          (let playlist_id = json_or id_field (JStr (mf_dir file));
               filename = json_or name_field playlist_id;
               numeric_created_at =
                 (if ts_field = JNull
                  then (case mf_mtime file of
                          Some mtime \<Rightarrow> JNum (FloatNum mtime)
                        | None \<Rightarrow> JNum (FloatNum 0))
                  else ts_field)
           in Inr \<lparr> ce_id = playlist_id,
                      ce_title = filename,
                      ce_created_at = created_at,
                      ce_resolutions = resolutions,
                      ce_created_at_ts = numeric_created_at \<rparr>)))))))))"

text \<open>
  Lines 239-273: the loop. The two exceptions of line 243 continue with the next file;
  every other error leaves the function.
\<close>

fun scan_manifests :: "(json \<Rightarrow> string) \<Rightarrow> manifest_file list \<Rightarrow> catalog_entry list
    \<Rightarrow> listing_error + catalog_entry list" where
  "scan_manifests py_format [] manifests = Inr manifests"
| "scan_manifests py_format (file # rest) manifests =
     (case mf_load file of
        RaisedOSError \<Rightarrow> scan_manifests py_format rest manifests
      | RaisedJSONDecodeError \<Rightarrow> scan_manifests py_format rest manifests
      | RaisedOther \<Rightarrow> Inl LoadError
      | Loaded data \<Rightarrow>
          (case catalog_entry_of py_format file data of
             Inl e \<Rightarrow> Inl e
           | Inr entry \<Rightarrow> scan_manifests py_format rest (manifests @ [entry])))"

text \<open>
  Lines 275-276: \<^verbatim>\<open>float(item.get("created_at_ts") or 0.0)\<close>. \<open>py_float\<close> is
  Python's \<^verbatim>\<open>float\<close> on a loaded value: the float, or the error it raises.
  \<^verbatim>\<open>list.sort\<close> computes the keys of all items, in order, before it compares any.
\<close>

definition sort_key_of :: "(json \<Rightarrow> listing_error + rat) \<Rightarrow> catalog_entry \<Rightarrow> listing_error + rat" where
  "sort_key_of py_float item =
     (if json_truthy (ce_created_at_ts item) then py_float (ce_created_at_ts item) else Inr 0)"

fun keyed :: "(json \<Rightarrow> listing_error + rat) \<Rightarrow> catalog_entry list
    \<Rightarrow> listing_error + (rat \<times> catalog_entry) list" where
  "keyed py_float [] = Inr []"
| "keyed py_float (item # rest) =
     (case sort_key_of py_float item of
        Inl e \<Rightarrow> Inl e
      | Inr k \<Rightarrow>
          (case keyed py_float rest of
             Inl e \<Rightarrow> Inl e
           | Inr ks \<Rightarrow> Inr ((k, item) # ks)))"

text \<open>
  \<^verbatim>\<open>list_manifests\<close> (lines 233-279). The manifest paths differ in the directory name
  only, so \<^verbatim>\<open>sorted\<close> orders them by it.
\<close>

definition list_manifests ::
  "(json \<Rightarrow> string) \<Rightarrow> (json \<Rightarrow> listing_error + rat) \<Rightarrow> bool \<Rightarrow> manifest_file list
     \<Rightarrow> listing_error + catalog_entry list" where
  "list_manifests py_format py_float root_exists files =
     (if \<not> root_exists then Inr []
      else case scan_manifests py_format (sort_key mf_dir files) [] of
             Inl e \<Rightarrow> Inl e
           | Inr manifests \<Rightarrow>
               (case keyed py_float manifests of
                  Inl e \<Rightarrow> Inl e
                | Inr ks \<Rightarrow> Inr (map snd (py_sorted_reverse fst ks))))"

section \<open>Facts about the reversed stable sort\<close>

lemma set_py_sorted_reverse [simp]: "set (py_sorted_reverse k xs) = set xs"
  by (simp add: py_sorted_reverse_def)

lemma length_py_sorted_reverse [simp]: "length (py_sorted_reverse k xs) = length xs"
  by (simp add: py_sorted_reverse_def)

lemma distinct_py_sorted_reverse [simp]:
  "distinct (py_sorted_reverse k xs) = distinct xs"
  by (simp add: py_sorted_reverse_def)

lemma descending_py_sorted_reverse:
  "sorted_wrt (\<lambda>a b. k a \<ge> k b) (py_sorted_reverse k xs)"
proof -
  have "sorted (map k (sort_key k (rev xs)))"
    by (rule sorted_sort_key)
  then have "sorted_wrt (\<lambda>a b. k a \<le> k b) (sort_key k (rev xs))"
    by (simp add: sorted_map)
  then show ?thesis
    by (simp add: py_sorted_reverse_def sorted_wrt_rev)
qed

lemma stable_py_sorted_reverse:
  "filter (\<lambda>x. k x = c) (py_sorted_reverse k xs) = filter (\<lambda>x. k x = c) xs"
proof -
  have "filter (\<lambda>x. k x = c) (sort_key k (rev xs)) = filter (\<lambda>x. k x = c) (rev xs)"
    by (rule sort_key_stable)
  then show ?thesis
    by (simp add: py_sorted_reverse_def rev_filter [symmetric])
qed

lemma distinct_descending_strict:
  fixes xs :: "int list"
  shows "distinct xs \<Longrightarrow> sorted_wrt (\<lambda>a b. a \<ge> b) xs \<Longrightarrow> sorted_wrt (\<lambda>a b. a > b) xs"
  by (induction xs) (auto simp: less_le)

lemma strict_descending_requested_sorted:
  "sorted_wrt (\<lambda>a b. a > b) (requested_sorted rs)"
proof -
  have d: "distinct (requested_sorted rs)"
    by (simp add: requested_sorted_def)
  have s: "sorted_wrt (\<lambda>a b. a \<ge> b) (requested_sorted rs)"
    unfolding requested_sorted_def by (rule descending_py_sorted_reverse)
  from d s show ?thesis
    by (rule distinct_descending_strict)
qed

lemma set_requested_sorted [simp]: "set (requested_sorted rs) = set rs"
  by (simp add: requested_sorted_def)

section \<open>Facts about the summary\<close>

lemma is_master_enrich: "e_is_master (enrich v) \<longleftrightarrow> v_is_master v = Some True"
  by (cases "v_is_master v") (simp_all add: enrich_def get_default_def)

lemma scan_variants_found:
  "scan_variants vs (Some m, others) = (Some m, others @ map enrich vs)"
  by (induction vs arbitrary: others) simp_all

lemma scan_variants_unflagged:
  "\<forall>x \<in> set xs. v_is_master x \<noteq> Some True \<Longrightarrow>
   scan_variants xs (None, others) = (None, others @ map enrich xs)"
  by (induction xs arbitrary: others) (simp_all add: is_master_enrich)

lemma scan_variants_append:
  "scan_variants (xs @ ys) st = scan_variants ys (scan_variants xs st)"
proof (induction xs arbitrary: st)
  case Nil
  then show ?case by simp
next
  case (Cons x xs)
  then show ?case by (cases st) simp
qed

lemma scan_variants_first_flagged:
  assumes "\<forall>x \<in> set xs. v_is_master x \<noteq> Some True" and "v_is_master v = Some True"
  shows "scan_variants (xs @ v # ys) (None, []) = (Some (enrich v), map enrich (xs @ ys))"
proof -
  have "scan_variants (xs @ v # ys) (None, []) = scan_variants (v # ys) (None, map enrich xs)"
    using assms(1) by (simp add: scan_variants_append scan_variants_unflagged)
  also have "\<dots> = scan_variants ys (Some (enrich v), map enrich xs)"
    using assms(2) by (simp add: is_master_enrich)
  also have "\<dots> = (Some (enrich v), map enrich (xs @ ys))"
    by (simp add: scan_variants_found)
  finally show ?thesis .
qed

lemma summarise_first_flagged:
  assumes "m_variants m = Some (xs @ v # ys)"
    and "\<forall>x \<in> set xs. v_is_master x \<noteq> Some True"
    and "v_is_master v = Some True"
  shows "sm_master (summarise_manifest m)
           = Some (with_filename (get_default (m_source m) empty_source) (enrich v))"
    and "sm_variants (summarise_manifest m)
           = py_sorted_reverse height_key (map enrich (xs @ ys))"
  using assms(1) scan_variants_first_flagged [OF assms(2,3), of ys]
  by (simp_all add: summarise_manifest_def get_default_def Let_def)

lemma summarise_none_flagged:
  assumes "m_variants m = Some (v # vs)"
    and "\<forall>x \<in> set (v # vs). v_is_master x \<noteq> Some True"
  shows "sm_master (summarise_manifest m)
           = Some (with_filename (get_default (m_source m) empty_source) (fallback_master v))"
    and "sm_variants (summarise_manifest m)
           = py_sorted_reverse height_key (map enrich (v # vs))"
  using assms(1) scan_variants_unflagged [OF assms(2), of "[]"]
  by (simp_all add: summarise_manifest_def get_default_def Let_def)

lemma summarise_variants_descending:
  "sorted_wrt (\<lambda>a b. height_key a \<ge> height_key b) (sm_variants (summarise_manifest m))"
proof -
  obtain found others where
    "scan_variants (get_default (m_variants m) []) (None, []) = (found, others)"
    by (cases "scan_variants (get_default (m_variants m) []) (None, [])")
  then have "sm_variants (summarise_manifest m) = py_sorted_reverse height_key others"
    by (simp add: summarise_manifest_def Let_def)
  then show ?thesis
    by (simp add: descending_py_sorted_reverse)
qed

section \<open>Claims about planning and the quality parameter\<close>

lemma tl_targets:
  "tl (targets H R) = filter (\<lambda>res. res < H) (requested_sorted R)"
  by (auto simp: targets_def eligible_resolutions_def intro: filter_cong)

text \<open>
  C1. For a source height \<open>H > 0\<close> and any requested list \<open>R\<close>: the first target is
  \<open>H\<close>; the remaining targets are strictly decreasing, pairwise distinct, all below
  \<open>H\<close>, and are exactly the requested heights below \<open>H\<close>; the skipped list holds
  exactly the requested heights above \<open>H\<close>, in strictly descending order; targets and
  skipped are disjoint.
\<close>

theorem plan_targets_skipped:
  assumes "0 < H"
  shows "targets H R ! 0 = H
    \<and> sorted_wrt (\<lambda>a b. a > b) (tl (targets H R))
    \<and> distinct (tl (targets H R))
    \<and> (\<forall>t \<in> set (tl (targets H R)). t < H)
    \<and> set (tl (targets H R)) = {r \<in> set R. r < H}
    \<and> set (skipped_resolutions H R) = {r \<in> set R. r > H}
    \<and> sorted_wrt (\<lambda>a b. a > b) (skipped_resolutions H R)
    \<and> set (targets H R) \<inter> set (skipped_resolutions H R) = {}"
proof -
  have strict: "sorted_wrt (\<lambda>a b. a > b) (requested_sorted R)"
    by (rule strict_descending_requested_sorted)
  have first: "targets H R ! 0 = H"
    by (simp add: targets_def)
  have desc: "sorted_wrt (\<lambda>a b. a > b) (tl (targets H R))"
    unfolding tl_targets using strict by (rule sorted_wrt_filter)
  have dist: "distinct (tl (targets H R))"
    unfolding tl_targets by (simp add: requested_sorted_def)
  have below: "\<forall>t \<in> set (tl (targets H R)). t < H"
    unfolding tl_targets by simp
  have exact: "set (tl (targets H R)) = {r \<in> set R. r < H}"
    unfolding tl_targets by auto
  have skip: "set (skipped_resolutions H R) = {r \<in> set R. r > H}"
    by (auto simp: skipped_resolutions_def)
  have skip_desc: "sorted_wrt (\<lambda>a b. a > b) (skipped_resolutions H R)"
    unfolding skipped_resolutions_def using strict by (rule sorted_wrt_filter)
  have "set (targets H R) = insert H (set (tl (targets H R)))"
    by (simp add: targets_def)
  with exact skip have disj: "set (targets H R) \<inter> set (skipped_resolutions H R) = {}"
    by auto
  from first desc dist below exact skip skip_desc disj show ?thesis
    by blast
qed

theorem plan_targets_skipped_witness:
  "(0::int) < 1080
   \<and> targets 1080 [720, 2160, 1080, 480, 720] = [1080, 720, 480]
   \<and> skipped_resolutions 1080 [720, 2160, 1080, 480, 720] = [2160]
   \<and> targets 1080 [720, 2160, 1080, 480, 720] ! 0 = 1080
   \<and> set (targets 1080 [720, 2160, 1080, 480, 720])
        \<inter> set (skipped_resolutions 1080 [720, 2160, 1080, 480, 720]) = {}"
proof -
  have h: "(0::int) < 1080" by simp
  have e: "targets 1080 [720, 2160, 1080, 480, 720] = [1080, 720, 480]"
    by (simp add: targets_def eligible_resolutions_def requested_sorted_def
        py_sorted_reverse_def)
  have k: "skipped_resolutions 1080 [720, 2160, 1080, 480, 720] = [2160]"
    by (simp add: skipped_resolutions_def requested_sorted_def py_sorted_reverse_def)
  note p = plan_targets_skipped [OF h, of "[720, 2160, 1080, 480, 720]"]
  from p have n: "targets 1080 [720, 2160, 1080, 480, 720] ! 0 = 1080"
    by blast
  from p have d: "set (targets 1080 [720, 2160, 1080, 480, 720])
      \<inter> set (skipped_resolutions 1080 [720, 2160, 1080, 480, 720]) = {}"
    by blast
  from h e k n d show ?thesis
    by blast
qed

text \<open>
  C6. The quality parameter is 20 from 2160 up, 21 from 1440, 22 from 1080, 23 from
  720, 24 from 480 and 25 below, the first matching threshold from the highest down;
  hence a height at least as large never gets a larger parameter.
\<close>

theorem crf_for_height_table:
  "(2160 \<le> h \<longrightarrow> crf_for_height h = 20)
   \<and> (1440 \<le> h \<and> h < 2160 \<longrightarrow> crf_for_height h = 21)
   \<and> (1080 \<le> h \<and> h < 1440 \<longrightarrow> crf_for_height h = 22)
   \<and> (720 \<le> h \<and> h < 1080 \<longrightarrow> crf_for_height h = 23)
   \<and> (480 \<le> h \<and> h < 720 \<longrightarrow> crf_for_height h = 24)
   \<and> (h < 480 \<longrightarrow> crf_for_height h = 25)
   \<and> (h2 \<le> h1 \<longrightarrow> crf_for_height h1 \<le> crf_for_height h2)"
  by (simp add: crf_for_height_def)

theorem crf_for_height_table_witness:
  "(720::int) \<le> 1080 \<and> crf_for_height 1080 = 22 \<and> crf_for_height 720 = 23
   \<and> crf_for_height 2160 = 20 \<and> crf_for_height 360 = 25
   \<and> crf_for_height 1080 \<le> crf_for_height 720"
proof -
  note t = crf_for_height_table [of 1080 720]
  have h: "(720::int) \<le> 1080"
    by simp
  from t have a: "crf_for_height 1080 = 22"
    by simp
  from crf_for_height_table [of 720] have b: "crf_for_height 720 = 23"
    by simp
  from crf_for_height_table [of 2160] have c: "crf_for_height 2160 = 20"
    by simp
  from crf_for_height_table [of 360] have d: "crf_for_height 360 = 25"
    by simp
  from t h have e: "crf_for_height 1080 \<le> crf_for_height 720"
    by blast
  from h a b c d e show ?thesis
    by blast
qed

section \<open>Claims about the summary\<close>

text \<open>
  C2. With one flagged variant the summary selects it as master, leaves it out of the
  variants list and sorts the others by descending height (lemmas
  \<open>summarise_first_flagged\<close>, \<open>summarise_variants_descending\<close>). With no flagged
  variant the fallback of lines 305-317 selects the first variant as master, but the loop
  has already appended every variant, the first included, to \<^verbatim>\<open>other_variants\<close>, and
  nothing removes it: on the manifest with the single unflagged 720p variant
  \<^verbatim>\<open>a.mp4\<close> the master is that variant and the variants list still holds it.
\<close>

theorem summarise_fallback_master_still_listed:
  "sm_master (summarise_manifest
       (empty_manifest \<lparr> m_variants :=
          Some [empty_variant \<lparr> v_height := Some 720, v_file := Some ''a.mp4'' \<rparr>] \<rparr>))
     = Some (with_filename empty_source
         (fallback_master (empty_variant \<lparr> v_height := Some 720, v_file := Some ''a.mp4'' \<rparr>)))
   \<and> sm_variants (summarise_manifest
       (empty_manifest \<lparr> m_variants :=
          Some [empty_variant \<lparr> v_height := Some 720, v_file := Some ''a.mp4'' \<rparr>] \<rparr>))
     = [enrich (empty_variant \<lparr> v_height := Some 720, v_file := Some ''a.mp4'' \<rparr>)]
   \<and> map e_file (sm_variants (summarise_manifest
       (empty_manifest \<lparr> m_variants :=
          Some [empty_variant \<lparr> v_height := Some 720, v_file := Some ''a.mp4'' \<rparr>] \<rparr>)))
     = [Some ''a.mp4'']
   \<and> map_option e_file (sm_master (summarise_manifest
       (empty_manifest \<lparr> m_variants :=
          Some [empty_variant \<lparr> v_height := Some 720, v_file := Some ''a.mp4'' \<rparr>] \<rparr>)))
     = Some (Some ''a.mp4'')"
  by (simp add: summarise_manifest_def empty_manifest_def empty_variant_def get_default_def
      enrich_def fallback_master_def with_filename_def py_sorted_reverse_def empty_source_def
      enriched.defs master_view.defs)

text \<open>
  C9. When more than one variant is flagged, the first flagged variant in storage order
  is the master; every later flagged variant stays in the variants list, still flagged,
  and the list holds exactly the views of all variants but the master.
\<close>

theorem summarise_several_flagged:
  assumes "m_variants m = Some (xs @ v # ys)"
    and "\<forall>x \<in> set xs. v_is_master x \<noteq> Some True"
    and "v_is_master v = Some True"
    and "\<exists>y \<in> set ys. v_is_master y = Some True"
  shows "sm_master (summarise_manifest m)
           = Some (with_filename (get_default (m_source m) empty_source) (enrich v))
    \<and> (\<forall>y \<in> set ys. v_is_master y = Some True \<longrightarrow>
          enrich y \<in> set (sm_variants (summarise_manifest m)) \<and> e_is_master (enrich y))
    \<and> mset (sm_variants (summarise_manifest m)) = mset (map enrich (xs @ ys))"
proof -
  note s = summarise_first_flagged [OF assms(1,2,3)]
  have later: "\<forall>y \<in> set ys. v_is_master y = Some True \<longrightarrow>
      enrich y \<in> set (sm_variants (summarise_manifest m)) \<and> e_is_master (enrich y)"
    by (simp add: s(2) is_master_enrich)
  have all: "mset (sm_variants (summarise_manifest m)) = mset (map enrich (xs @ ys))"
    by (simp add: s(2) py_sorted_reverse_def)
  from s(1) later all show ?thesis
    by blast
qed

theorem summarise_several_flagged_witness:
  "sm_master (summarise_manifest
       (empty_manifest \<lparr> m_variants := Some
          ([empty_variant \<lparr> v_height := Some 480 \<rparr>]
           @ empty_variant \<lparr> v_height := Some 1080, v_is_master := Some True \<rparr>
           # [empty_variant \<lparr> v_height := Some 720, v_is_master := Some True \<rparr>]) \<rparr>))
     = Some (with_filename empty_source
         (enrich (empty_variant \<lparr> v_height := Some 1080, v_is_master := Some True \<rparr>)))
   \<and> sm_variants (summarise_manifest
       (empty_manifest \<lparr> m_variants := Some
          ([empty_variant \<lparr> v_height := Some 480 \<rparr>]
           @ empty_variant \<lparr> v_height := Some 1080, v_is_master := Some True \<rparr>
           # [empty_variant \<lparr> v_height := Some 720, v_is_master := Some True \<rparr>]) \<rparr>))
     = [enrich (empty_variant \<lparr> v_height := Some 720, v_is_master := Some True \<rparr>),
        enrich (empty_variant \<lparr> v_height := Some 480 \<rparr>)]"
proof -
  let ?a = "empty_variant \<lparr> v_height := Some 480 \<rparr>"
  let ?b = "empty_variant \<lparr> v_height := Some 1080, v_is_master := Some True \<rparr>"
  let ?c = "empty_variant \<lparr> v_height := Some 720, v_is_master := Some True \<rparr>"
  let ?m = "empty_manifest \<lparr> m_variants := Some ([?a] @ ?b # [?c]) \<rparr>"
  have h1: "m_variants ?m = Some ([?a] @ ?b # [?c])"
    by simp
  have h2: "\<forall>x \<in> set [?a]. v_is_master x \<noteq> Some True"
    by (simp add: empty_variant_def)
  have h3: "v_is_master ?b = Some True"
    by simp
  have h4: "\<exists>y \<in> set [?c]. v_is_master y = Some True"
    by simp
  note t = summarise_several_flagged [OF h1 h2 h3 h4]
  have src: "get_default (m_source ?m) empty_source = empty_source"
    by (simp add: empty_manifest_def get_default_def)
  from t src have master: "sm_master (summarise_manifest ?m)
      = Some (with_filename empty_source (enrich ?b))"
    by simp
  have others: "sm_variants (summarise_manifest ?m) = [enrich ?c, enrich ?a]"
    by (simp add: summarise_manifest_def empty_manifest_def empty_variant_def get_default_def
        enrich_def py_sorted_reverse_def height_key_def)
  from master others show ?thesis
    by simp
qed

section \<open>Claims about form validation\<close>

lemma collect_resolutions_filter:
  "collect_resolutions py_int vs acc
     = acc @ filter (\<lambda>r. r \<in> set RESOLUTION_PRESETS) (List.map_filter py_int vs)"
  by (induction vs arbitrary: acc) (simp_all add: List.map_filter_simps split: option.splits)

text \<open>
  C10. The values collected from the form are the parseable preset values, in the order
  submitted; a value that does not parse or is not a preset is dropped and raises no
  error. The resolution check rejects exactly when no submitted value is a parseable
  preset, and once the file checks have passed the request is rejected with the
  resolution message exactly in that case. When a parseable preset is present the request
  goes on: it meets the two checks that follow (segment duration, safe file name) and,
  passing them, is accepted with the filtered list as its resolutions.
\<close>

theorem invalid_resolutions_discarded:
  "collect_resolutions py_int form_values []
     = filter (\<lambda>r. r \<in> set RESOLUTION_PRESETS) (List.map_filter py_int form_values)
   \<and> (check_resolutions py_int form_values = Inl SelectResolution
        \<longleftrightarrow> \<not> (\<exists>v \<in> set form_values. \<exists>r \<in> set RESOLUTION_PRESETS. py_int v = Some r))
   \<and> ((\<exists>v \<in> set form_values. \<exists>r \<in> set RESOLUTION_PRESETS. py_int v = Some r)
        \<longrightarrow> check_resolutions py_int form_values
              = Inr (filter (\<lambda>r. r \<in> set RESOLUTION_PRESETS) (List.map_filter py_int form_values)))
   \<and> (f_filename form = Some name \<and> name \<noteq> [] \<and> allowed_file py_lower name
          \<and> f_resolutions form = form_values
        \<longrightarrow> (validate_upload py_int py_lower secure_filename form = Inl SelectResolution
              \<longleftrightarrow> \<not> (\<exists>v \<in> set form_values. \<exists>r \<in> set RESOLUTION_PRESETS. py_int v = Some r)))
   \<and> (f_filename form = Some name \<and> name \<noteq> [] \<and> allowed_file py_lower name
          \<and> f_resolutions form = form_values
          \<and> (\<exists>v \<in> set form_values. \<exists>r \<in> set RESOLUTION_PRESETS. py_int v = Some r)
        \<longrightarrow> validate_upload py_int py_lower secure_filename form
            = (case (case f_segment_duration form of
                       None \<Rightarrow> Some 30
                     | Some raw \<Rightarrow> py_int raw) of
                 None \<Rightarrow> Inl InvalidSegmentDuration
               | Some segment_duration \<Rightarrow>
                   if secure_filename name = [] then Inl UnsafeFilename
                   else Inr \<lparr> ok_filename = secure_filename name,
                              ok_resolutions =
                                filter (\<lambda>r. r \<in> set RESOLUTION_PRESETS)
                                  (List.map_filter py_int form_values),
                              ok_segment_duration =
                                clamp_segment_duration segment_duration \<rparr>))"
proof -
  let ?valid = "filter (\<lambda>r. r \<in> set RESOLUTION_PRESETS) (List.map_filter py_int form_values)"
  let ?present = "\<exists>v \<in> set form_values. \<exists>r \<in> set RESOLUTION_PRESETS. py_int v = Some r"
  have collected: "collect_resolutions py_int form_values [] = ?valid"
    by (simp add: collect_resolutions_filter)
  have empty_iff: "?valid = [] \<longleftrightarrow> \<not> ?present"
    by (force simp: filter_empty_conv List.map_filter_def)
  have rejected: "check_resolutions py_int form_values = Inl SelectResolution \<longleftrightarrow> ?valid = []"
    by (simp add: check_resolutions_def collected Let_def)
  have accepted: "?valid \<noteq> [] \<Longrightarrow> check_resolutions py_int form_values = Inr ?valid"
    by (simp add: check_resolutions_def collected Let_def)
  have whole: "validate_upload py_int py_lower secure_filename form = Inl SelectResolution
      \<longleftrightarrow> ?valid = []"
    if "f_filename form = Some name" "name \<noteq> []" "allowed_file py_lower name"
      "f_resolutions form = form_values"
    using that
    by (auto simp: validate_upload_def check_resolutions_def collected Let_def
        split: option.splits)
  have goes_on: "validate_upload py_int py_lower secure_filename form
      = (case (case f_segment_duration form of None \<Rightarrow> Some 30 | Some raw \<Rightarrow> py_int raw) of
           None \<Rightarrow> Inl InvalidSegmentDuration
         | Some segment_duration \<Rightarrow>
             if secure_filename name = [] then Inl UnsafeFilename
             else Inr \<lparr> ok_filename = secure_filename name,
                        ok_resolutions = ?valid,
                        ok_segment_duration = clamp_segment_duration segment_duration \<rparr>)"
    if "f_filename form = Some name" "name \<noteq> []" "allowed_file py_lower name"
      "f_resolutions form = form_values" "?valid \<noteq> []"
    using that by (simp add: validate_upload_def accepted)
  from collected empty_iff rejected accepted whole goes_on show ?thesis
    by blast
qed

theorem invalid_resolutions_discarded_witness:
  "check_resolutions (\<lambda>s. if s = ''720'' then Some 720 else if s = ''999'' then Some 999 else None)
       [''abc'', ''999'', ''720''] = Inr [720]
   \<and> check_resolutions (\<lambda>s. if s = ''720'' then Some 720 else if s = ''999'' then Some 999 else None)
       [''abc'', ''999''] = Inl SelectResolution
   \<and> validate_upload
       (\<lambda>s. if s = ''720'' then Some 720 else if s = ''999'' then Some 999 else None)
       (\<lambda>s. s) (\<lambda>s. s)
       \<lparr> f_filename = Some ''a.mp4'', f_resolutions = [''abc'', ''999'', ''720''],
         f_segment_duration = None \<rparr>
     = Inr \<lparr> ok_filename = ''a.mp4'', ok_resolutions = [720], ok_segment_duration = 30 \<rparr>
   \<and> validate_upload
       (\<lambda>s. if s = ''720'' then Some 720 else if s = ''999'' then Some 999 else None)
       (\<lambda>s. s) (\<lambda>s. s)
       \<lparr> f_filename = Some ''a.mp4'', f_resolutions = [''abc'', ''999''],
         f_segment_duration = None \<rparr>
     = Inl SelectResolution"
proof -
  let ?P = "\<lambda>s. if s = ''720'' then Some (720::int) else if s = ''999'' then Some 999 else None"
  let ?form = "\<lparr> f_filename = Some ''a.mp4'', f_resolutions = [''abc'', ''999'', ''720''],
         f_segment_duration = None \<rparr>"
  let ?form' = "\<lparr> f_filename = Some ''a.mp4'', f_resolutions = [''abc'', ''999''],
         f_segment_duration = None \<rparr>"
  have ex: "\<exists>v \<in> set [''abc'', ''999'', ''720'']. \<exists>r \<in> set RESOLUTION_PRESETS. ?P v = Some r"
    by (simp add: RESOLUTION_PRESETS_def)
  have nex: "\<not> (\<exists>v \<in> set [''abc'', ''999'']. \<exists>r \<in> set RESOLUTION_PRESETS. ?P v = Some r)"
    by (simp add: RESOLUTION_PRESETS_def)
  have okfile: "allowed_file (\<lambda>s. s) ''a.mp4''"
    by (simp add: allowed_file_def after_last_dot_def ALLOWED_EXTENSIONS_def)
  have valid: "filter (\<lambda>r. r \<in> set RESOLUTION_PRESETS)
      (List.map_filter ?P [''abc'', ''999'', ''720'']) = [720]"
    by (simp add: List.map_filter_simps RESOLUTION_PRESETS_def)
  note t = invalid_resolutions_discarded
    [where py_int = ?P and form_values = "[''abc'', ''999'', ''720'']" and form = ?form
      and name = "''a.mp4''" and py_lower = "\<lambda>s. s" and secure_filename = "\<lambda>s. s"]
  note t' = invalid_resolutions_discarded
    [where py_int = ?P and form_values = "[''abc'', ''999'']" and form = ?form'
      and name = "''a.mp4''" and py_lower = "\<lambda>s. s" and secure_filename = "\<lambda>s. s"]
  from t ex have "check_resolutions ?P [''abc'', ''999'', ''720'']
      = Inr (filter (\<lambda>r. r \<in> set RESOLUTION_PRESETS) (List.map_filter ?P [''abc'', ''999'', ''720'']))"
    by blast
  then have a: "check_resolutions ?P [''abc'', ''999'', ''720''] = Inr [720]"
    by (simp only: valid)
  from t' nex have b: "check_resolutions ?P [''abc'', ''999''] = Inl SelectResolution"
    by blast
  have pre: "f_filename ?form = Some ''a.mp4'' \<and> ''a.mp4'' \<noteq> [] \<and> allowed_file (\<lambda>s. s) ''a.mp4''
      \<and> f_resolutions ?form = [''abc'', ''999'', ''720'']"
    using okfile by simp
  from t pre ex have "validate_upload ?P (\<lambda>s. s) (\<lambda>s. s) ?form
      = (case (case f_segment_duration ?form of None \<Rightarrow> Some 30 | Some raw \<Rightarrow> ?P raw) of
           None \<Rightarrow> Inl InvalidSegmentDuration
         | Some segment_duration \<Rightarrow>
             if (\<lambda>s. s) ''a.mp4'' = [] then Inl UnsafeFilename
             else Inr \<lparr> ok_filename = (\<lambda>s. s) ''a.mp4'',
                        ok_resolutions = filter (\<lambda>r. r \<in> set RESOLUTION_PRESETS)
                          (List.map_filter ?P [''abc'', ''999'', ''720'']),
                        ok_segment_duration = clamp_segment_duration segment_duration \<rparr>)"
    by blast
  then have c: "validate_upload ?P (\<lambda>s. s) (\<lambda>s. s) ?form
      = Inr \<lparr> ok_filename = ''a.mp4'', ok_resolutions = [720], ok_segment_duration = 30 \<rparr>"
    by (simp only: valid) (simp add: clamp_segment_duration_def)
  have pre': "f_filename ?form' = Some ''a.mp4'' \<and> ''a.mp4'' \<noteq> [] \<and> allowed_file (\<lambda>s. s) ''a.mp4''
      \<and> f_resolutions ?form' = [''abc'', ''999'']"
    using okfile by simp
  from t' pre' nex have d: "validate_upload ?P (\<lambda>s. s) (\<lambda>s. s) ?form' = Inl SelectResolution"
    by blast
  from a b c d show ?thesis
    by blast
qed

section \<open>Facts about the chunk files\<close>

lemma digit_char_inj:
  "a < 10 \<Longrightarrow> b < 10 \<Longrightarrow> digit_char a = digit_char b \<Longrightarrow> a = b"
proof -
  assume a: "a < 10" and b: "b < 10" and e: "digit_char a = digit_char b"
  have d: "distinct ''0123456789''"
    by simp
  from a b have "a < length ''0123456789''" "b < length ''0123456789''"
    by simp_all
  with d e show "a = b"
    unfolding digit_char_def by (simp only: nth_eq_iff_index_eq)
qed

lemma str_nat_not_Nil: "str_nat n \<noteq> []"
  by (subst str_nat.simps) simp

lemma str_nat_inj: "str_nat m = str_nat n \<Longrightarrow> m = n"
proof (induction m arbitrary: n rule: str_nat.induct)
  case (1 m)
  show ?case
  proof (cases "m < 10")
    case True
    show ?thesis
    proof (cases "n < 10")
      case n: True
      from "1.prems" True n have "digit_char m = digit_char n"
        by (simp add: str_nat.simps [of m] str_nat.simps [of n])
      with True n show ?thesis
        by (rule digit_char_inj)
    next
      case n: False
      from "1.prems" True n have "[digit_char m] = str_nat (n div 10) @ [digit_char (n mod 10)]"
        by (simp add: str_nat.simps [of m] str_nat.simps [of n])
      then show ?thesis
        using str_nat_not_Nil [of "n div 10"] by simp
    qed
  next
    case False
    show ?thesis
    proof (cases "n < 10")
      case n: True
      from "1.prems" False n have "str_nat (m div 10) @ [digit_char (m mod 10)] = [digit_char n]"
        by (simp add: str_nat.simps [of m] str_nat.simps [of n])
      then show ?thesis
        using str_nat_not_Nil [of "m div 10"] by simp
    next
      case n: False
      from "1.prems" False n
      have "str_nat (m div 10) @ [digit_char (m mod 10)] = str_nat (n div 10) @ [digit_char (n mod 10)]"
        by (simp add: str_nat.simps [of m] str_nat.simps [of n])
      then have s: "str_nat (m div 10) = str_nat (n div 10)"
        and d: "digit_char (m mod 10) = digit_char (n mod 10)"
        by simp_all
      from "1.IH" [OF False s] have q: "m div 10 = n div 10" .
      from d have r: "m mod 10 = n mod 10"
        by (intro digit_char_inj) simp_all
      from q r show ?thesis
        by (metis div_mult_mod_eq)
    qed
  qed
qed

lemma hd_str_nat_zero: "hd (str_nat n) = CHR ''0'' \<Longrightarrow> n = 0"
proof (induction n rule: str_nat.induct)
  case (1 n)
  show ?case
  proof (cases "n < 10")
    case True
    with "1.prems" have "digit_char n = digit_char 0"
      by (simp add: str_nat.simps [of n] digit_char_def)
    with True show ?thesis
      by (intro digit_char_inj) simp_all
  next
    case False
    with "1.prems" have "hd (str_nat (n div 10)) = CHR ''0''"
      using str_nat_not_Nil [of "n div 10"] by (simp add: str_nat.simps [of n])
    with "1.IH" False have "n div 10 = 0"
      by simp
    with False show ?thesis
      by simp
  qed
qed


lemma dropWhile_zero_str_nat:
  "dropWhile (\<lambda>c. c = CHR ''0'') (str_nat n) = (if n = 0 then [] else str_nat n)"
proof (cases "n = 0")
  case True
  then show ?thesis
    by (simp add: str_nat.simps [of 0] digit_char_def)
next
  case False
  then have "hd (str_nat n) \<noteq> CHR ''0''"
    using hd_str_nat_zero by blast
  with str_nat_not_Nil [of n] False show ?thesis
    by (cases "str_nat n") simp_all
qed

lemma dropWhile_zero_pad3:
  "dropWhile (\<lambda>c. c = CHR ''0'') (pad3 n) = (if n = 0 then [] else str_nat n)"
proof -
  have "dropWhile (\<lambda>c. c = CHR ''0'') (pad3 n) = dropWhile (\<lambda>c. c = CHR ''0'') (str_nat n)"
    unfolding pad3_def by (rule dropWhile_append2) simp
  then show ?thesis
    by (simp add: dropWhile_zero_str_nat)
qed

lemma pad3_inj: "pad3 m = pad3 n \<Longrightarrow> m = n"
proof -
  assume "pad3 m = pad3 n"
  then have "dropWhile (\<lambda>c. c = CHR ''0'') (pad3 m) = dropWhile (\<lambda>c. c = CHR ''0'') (pad3 n)"
    by simp
  then have e: "(if m = 0 then [] else str_nat m) = (if n = 0 then [] else str_nat n)"
    by (simp only: dropWhile_zero_pad3)
  show "m = n"
  proof (cases "m = 0")
    case True
    with e str_nat_not_Nil [of n] show ?thesis
      by (cases "n = 0") simp_all
  next
    case False
    with e str_nat_not_Nil [of m] have "n \<noteq> 0 \<and> str_nat m = str_nat n"
      by (cases "n = 0") simp_all
    then show ?thesis
      by (simp add: str_nat_inj)
  qed
qed

lemma chunk_name_inj: "chunk_name stem i = chunk_name stem j \<Longrightarrow> i = j"
  by (simp add: chunk_name_def pad3_inj)

lemma is_mp4_chunk_name: "is_mp4 (chunk_name stem i)"
  unfolding is_mp4_def chunk_name_def suffix_def
  by (rule exI [of _ "stem @ ''_part_'' @ pad3 i"]) simp

lemma fs_listdir_filter_other:
  assumes "name \<notin> set (fs_listdir fs d)"
  shows "fs_listdir (filter (\<lambda>(q, _). q \<noteq> d @ [name]) fs) d = fs_listdir fs d"
proof -
  have "q \<noteq> d @ [name]" if "(q, n) \<in> set fs" "q \<noteq> []" "butlast q = d" for q n
  proof
    assume "q = d @ [name]"
    from that have "(q, n) \<in> set (filter (\<lambda>(q, _). q \<noteq> [] \<and> butlast q = d) fs)"
      by simp
    then have "(\<lambda>(q, _). last q) (q, n) \<in> set (fs_listdir fs d)"
      unfolding fs_listdir_def set_map by (rule imageI)
    with \<open>q = d @ [name]\<close> assms show False
      by simp
  qed
  then have "filter (\<lambda>(q, _). q \<noteq> [] \<and> butlast q = d) (filter (\<lambda>(q, _). q \<noteq> d @ [name]) fs)
      = filter (\<lambda>(q, _). q \<noteq> [] \<and> butlast q = d) fs"
    unfolding filter_filter by (intro filter_cong refl) auto
  then show ?thesis
    by (simp add: fs_listdir_def)
qed

lemma fs_listdir_put_new:
  "name \<notin> set (fs_listdir fs d) \<Longrightarrow>
   fs_listdir (fs_put fs (d @ [name]) n) d = name # fs_listdir fs d"
  using fs_listdir_filter_other [of name fs d]
  by (simp add: fs_put_def fs_listdir_def)

lemma fs_listdir_write_chunks:
  assumes "\<forall>j. i \<le> j \<and> j < i + length chunks \<longrightarrow> chunk_name stem j \<notin> set (fs_listdir fs d)"
  shows "fs_listdir (write_chunks fs d stem i chunks) d
    = rev (map (chunk_name stem) [i ..< i + length chunks]) @ fs_listdir fs d"
  using assms
proof (induction chunks arbitrary: fs i)
  case Nil
  then show ?case by simp
next
  case (Cons c cs)
  let ?fs = "fs_put fs (d @ [chunk_name stem i]) (File c)"
  from Cons.prems have new: "chunk_name stem i \<notin> set (fs_listdir fs d)"
    by simp
  then have listing: "fs_listdir ?fs d = chunk_name stem i # fs_listdir fs d"
    by (rule fs_listdir_put_new)
  have "\<forall>j. Suc i \<le> j \<and> j < Suc i + length cs \<longrightarrow> chunk_name stem j \<notin> set (fs_listdir ?fs d)"
  proof (intro allI impI)
    fix j
    assume j: "Suc i \<le> j \<and> j < Suc i + length cs"
    then have "chunk_name stem j \<noteq> chunk_name stem i"
      using chunk_name_inj [of stem j i] by auto
    moreover from j Cons.prems have "chunk_name stem j \<notin> set (fs_listdir fs d)"
      by simp
    ultimately show "chunk_name stem j \<notin> set (fs_listdir ?fs d)"
      by (simp add: listing)
  qed
  then have "fs_listdir (write_chunks ?fs d stem (Suc i) cs) d
      = rev (map (chunk_name stem) [Suc i ..< Suc i + length cs]) @ fs_listdir ?fs d"
    by (rule Cons.IH)
  moreover have "[i ..< i + length (c # cs)] = i # [Suc i ..< Suc i + length cs]"
    by (simp add: upt_conv_Cons del: upt_Suc)
  ultimately show ?case
    by (simp add: listing del: upt_Suc)
qed

section \<open>Claims about the bitrate\<close>




text \<open>
  The source tests the measured duration for truth, the specification for being greater
  than zero. The two agree on every duration that is not negative; a negative duration,
  which a probe does not report for a file, the source would take as it is.
\<close>

lemma variant_duration_negative:
  "measured < 0 \<Longrightarrow>
   variant_duration measured segment_duration segment_count = FloatNum measured"
  by (simp add: variant_duration_def)



section \<open>Facts about the media directory\<close>

lemma map_of_filter_keys:
  "map_of (filter (\<lambda>(q, _). P q) fs) p = (if P p then map_of fs p else None)"
  by (induction fs) auto

lemma fs_lookup_put:
  "p \<noteq> [] \<Longrightarrow> fs_lookup (fs_put fs p n) q = (if q = p then Some n else fs_lookup fs q)"
  by (simp add: fs_lookup_def fs_put_def map_of_filter_keys)

lemma fs_lookup_rmtree:
  "fs_lookup (fs_rmtree fs d) q
     = (if q = [] then Some Dir else if prefix d q then None else fs_lookup fs q)"
  by (simp add: fs_lookup_def fs_rmtree_def map_of_filter_keys)

lemma length_write_states: "length (write_states fs p chunks) = Suc (length chunks)"
  by (simp add: write_states_def)

lemma nth_write_states:
  "k \<le> length chunks \<Longrightarrow>
   write_states fs p chunks ! k = fs_put fs p (File (concat (take k chunks)))"
  unfolding write_states_def by (simp del: upt_Suc)

lemma save_manifest_put: "save_manifest fs p chunks = fs_put fs p (File (concat chunks))"
proof -
  have "write_states fs p chunks \<noteq> []"
    using length_write_states [of fs p chunks] by auto
  then have "last (write_states fs p chunks) = write_states fs p chunks ! length chunks"
    by (simp add: last_conv_nth length_write_states)
  then show ?thesis
    by (simp add: save_manifest_def nth_write_states)
qed

section \<open>Facts about the segment directories\<close>

lemma length_segment_entries:
  "length (segment_entries d size_of sd names) = length (filter is_mp4 names)"
  by (simp add: segment_entries_def)

lemma map_seg_index_segment_entries:
  "map seg_index (segment_entries d size_of sd names)
     = [1 ..< Suc (length (filter is_mp4 names))]"
proof -
  have "map seg_index (segment_entries d size_of sd names)
      = map fst (enumerate 1 (sort (filter is_mp4 names)))"
    by (simp add: segment_entries_def case_prod_unfold comp_def)
  then show ?thesis
    by simp
qed

lemma map_seg_path_segment_entries:
  "map seg_path (segment_entries d size_of sd names)
     = map (\<lambda>item. to_relative (d @ [item])) (sort (filter is_mp4 names))"
proof -
  have "map seg_path (segment_entries d size_of sd names)
      = map (\<lambda>item. to_relative (d @ [item])) (map snd (enumerate 1 (sort (filter is_mp4 names))))"
    unfolding segment_entries_def map_map by (rule map_cong) (auto simp: case_prod_unfold)
  then show ?thesis
    by simp
qed


lemma fs_listdir_put_other:
  assumes "p = [] \<or> butlast p \<noteq> d"
  shows "fs_listdir (fs_put fs p n) d = fs_listdir fs d"
proof -
  have "filter (\<lambda>(q, _). q \<noteq> [] \<and> butlast q = d) (filter (\<lambda>(q, _). q \<noteq> p) fs)
      = filter (\<lambda>(q, _). q \<noteq> [] \<and> butlast q = d) fs"
    unfolding filter_filter using assms by (intro filter_cong refl) auto
  with assms show ?thesis
    by (auto simp: fs_listdir_def fs_put_def)
qed

lemma fs_listdir_make_parents:
  assumes "make_parents fs qs = Inr fs'" and "\<forall>q \<in> set qs. q = [] \<or> butlast q \<noteq> d"
  shows "fs_listdir fs' d = fs_listdir fs d"
  using assms
proof (induction qs arbitrary: fs)
  case Nil
  then show ?case by simp
next
  case (Cons q qs)
  show ?case
  proof (cases "fs_lookup fs q")
    case None
    with Cons.prems have "make_parents (fs_put fs q Dir) qs = Inr fs'"
      by simp
    with Cons.IH Cons.prems have "fs_listdir fs' d = fs_listdir (fs_put fs q Dir) d"
      by simp
    also from Cons.prems have "\<dots> = fs_listdir fs d"
      by (intro fs_listdir_put_other) simp
    finally show ?thesis .
  next
    case (Some n)
    with Cons.prems have "n = Dir \<and> make_parents fs qs = Inr fs'"
      by (cases n) simp_all
    with Cons.IH Cons.prems show ?thesis
      by simp
  qed
qed

lemma fs_listdir_mkdir:
  assumes "mkdir fs p exist_ok = Inr fs'" and "length p \<le> length d"
  shows "fs_listdir fs' d = fs_listdir fs d"
proof (cases "fs_lookup fs p")
  case (Some n)
  with assms(1) show ?thesis
    by (simp add: mkdir_def split: if_splits)
next
  case None
  with assms(1) obtain fs1 where
    parents: "make_parents fs (butlast (prefixes p)) = Inr fs1" and fs': "fs' = fs_put fs1 p Dir"
    by (auto simp: mkdir_def split: sum.splits)
  have short: "q = [] \<or> butlast q \<noteq> d" if "prefix q p" for q
  proof (cases "q = []")
    case False
    from that have "length q \<le> length p"
      by (rule prefix_length_le)
    with assms(2) False have "length (butlast q) < length d"
      by (cases q rule: rev_cases) simp_all
    then show ?thesis
      by auto
  qed simp
  have "\<forall>q \<in> set (butlast (prefixes p)). q = [] \<or> butlast q \<noteq> d"
  proof
    fix q
    assume "q \<in> set (butlast (prefixes p))"
    then have "q \<in> set (prefixes p)"
      by (rule in_set_butlastD)
    then have "prefix q p"
      by (simp add: in_set_prefixes)
    then show "q = [] \<or> butlast q \<noteq> d"
      by (rule short)
  qed
  with parents have "fs_listdir fs1 d = fs_listdir fs d"
    by (rule fs_listdir_make_parents)
  moreover have "fs_listdir (fs_put fs1 p Dir) d = fs_listdir fs1 d"
    using short [of p] by (intro fs_listdir_put_other) simp
  ultimately show ?thesis
    by (simp add: fs')
qed

lemma fs_lookup_make_parents:
  assumes "make_parents fs qs = Inr fs'" and "fs_lookup fs q = Some n"
  shows "fs_lookup fs' q = Some n"
  using assms
proof (induction qs arbitrary: fs)
  case Nil
  then show ?case by simp
next
  case (Cons r rs)
  show ?case
  proof (cases "fs_lookup fs r")
    case None
    then have "r \<noteq> []"
      by (auto simp: fs_lookup_def)
    with None Cons.prems(2) have lk: "fs_lookup (fs_put fs r Dir) q = Some n"
      by (auto simp: fs_lookup_put)
    from None Cons.prems(1) have mp: "make_parents (fs_put fs r Dir) rs = Inr fs'"
      by simp
    from mp lk show ?thesis
      by (rule Cons.IH)
  next
    case (Some m)
    with Cons.prems(1) have "make_parents fs rs = Inr fs'"
      by (cases m) simp_all
    from this Cons.prems(2) show ?thesis
      by (rule Cons.IH)
  qed
qed

lemma fs_lookup_mkdir:
  assumes "mkdir fs p exist_ok = Inr fs'" and "fs_lookup fs q = Some n"
  shows "fs_lookup fs' q = Some n"
proof (cases "fs_lookup fs p")
  case (Some m)
  with assms show ?thesis
    by (simp add: mkdir_def split: if_splits)
next
  case None
  with assms(1) obtain fs1 where
    parents: "make_parents fs (butlast (prefixes p)) = Inr fs1" and fs': "fs' = fs_put fs1 p Dir"
    by (auto simp: mkdir_def split: sum.splits)
  from parents assms(2) have "fs_lookup fs1 q = Some n"
    by (rule fs_lookup_make_parents)
  moreover from None have "p \<noteq> []"
    by (auto simp: fs_lookup_def)
  moreover from None assms(2) have "q \<noteq> p"
    by auto
  ultimately show ?thesis
    by (simp add: fs' fs_lookup_put)
qed

lemma fs_listdir_write_chunks_other:
  "d' \<noteq> d \<Longrightarrow> fs_listdir (write_chunks fs d' stem i chunks) d = fs_listdir fs d"
  by (induction chunks arbitrary: fs i) (simp_all add: fs_listdir_put_other)

lemma minus_not_in_str_nat: "CHR ''-'' \<notin> set (str_nat n)"
proof (induction n rule: str_nat.induct)
  case (1 n)
  have digit: "digit_char d \<noteq> CHR ''-''" if "d < 10" for d
  proof -
    from that have "''0123456789'' ! d \<in> set ''0123456789''"
      by (intro nth_mem) simp
    then show ?thesis
      unfolding digit_char_def by auto
  qed
  show ?case
  proof (cases "n < 10")
    case True
    then show ?thesis
      using digit [of n] by (simp add: str_nat.simps [of n])
  next
    case False
    with "1.IH" show ?thesis
      using digit [of "n mod 10"] by (simp add: str_nat.simps [of n])
  qed
qed

lemma str_int_inj: "str_int i = str_int j \<Longrightarrow> i = j"
proof -
  assume e: "str_int i = str_int j"
  consider "i < 0" "j < 0" | "0 \<le> i" "0 \<le> j" | "i < 0" "0 \<le> j" | "0 \<le> i" "j < 0"
    by linarith
  then show "i = j"
  proof cases
    case 1
    with e have "str_nat (nat (- i)) = str_nat (nat (- j))"
      by (simp add: str_int_def)
    then have "nat (- i) = nat (- j)"
      by (rule str_nat_inj)
    with 1 show ?thesis by simp
  next
    case 2
    with e have "str_nat (nat i) = str_nat (nat j)"
      by (simp add: str_int_def)
    then have "nat i = nat j"
      by (rule str_nat_inj)
    with 2 show ?thesis by simp
  next
    case 3
    with e have "CHR ''-'' # str_nat (nat (- i)) = str_nat (nat j)"
      by (simp add: str_int_def)
    then have "CHR ''-'' \<in> set (str_nat (nat j))"
      by (metis list.set_intros(1))
    then show ?thesis
      by (simp add: minus_not_in_str_nat)
  next
    case 4
    with e have "str_nat (nat i) = CHR ''-'' # str_nat (nat (- j))"
      by (simp add: str_int_def)
    then have "CHR ''-'' \<in> set (str_nat (nat i))"
      by (metis list.set_intros(1))
    then show ?thesis
      by (simp add: minus_not_in_str_nat)
  qed
qed

lemma sort_rev: "sort (rev xs) = sort xs"
  by (rule properties_for_sort) simp_all


lemma segment_video_fresh:
  assumes run: "segment_video t fs source_path D sd = Inr (fs', entries)"
    and fresh: "fs_listdir fs D = []"
    and bytes: "fs_lookup fs source_path = Some (File out)"
  shows "\<exists>chunks. ffmpeg_segment t out sd = Some chunks
      \<and> map seg_index entries = [1 ..< Suc (length chunks)]
      \<and> map seg_path entries
        = map (\<lambda>name. to_relative (D @ [name]))
            (sort (map (chunk_name (path_stem (last source_path))) [0 ..< length chunks]))"
    and "d \<noteq> D \<Longrightarrow> length D \<le> length d \<Longrightarrow> fs_listdir fs' d = fs_listdir fs d"
proof -
  let ?stem = "path_stem (last source_path)"
  from run obtain fs1 where dir: "mkdir fs D True = Inr fs1"
    by (auto simp: segment_video_def split: sum.splits)
  from dir bytes have bytes1: "fs_lookup fs1 source_path = Some (File out)"
    by (rule fs_lookup_mkdir)
  from run dir bytes1 obtain chunks where
    seg: "ffmpeg_segment t out sd = Some chunks"
    and fs': "fs' = write_chunks fs1 D ?stem 0 chunks"
    and entries: "entries = segment_entries D (\<lambda>item. fs_size fs' (D @ [item])) sd
        (fs_listdir fs' D)"
    by (auto simp: segment_video_def Let_def split: option.splits)
  from dir have "fs_listdir fs1 D = fs_listdir fs D"
    by (rule fs_listdir_mkdir) simp
  with fresh have fresh1: "fs_listdir fs1 D = []"
    by simp
  have names: "fs_listdir fs' D = rev (map (chunk_name ?stem) [0 ..< length chunks])"
    using fs_listdir_write_chunks [of 0 chunks ?stem fs1 D] fresh1
    by (simp add: fs')
  then have all_mp4: "filter is_mp4 (fs_listdir fs' D) = fs_listdir fs' D"
    by (simp add: is_mp4_chunk_name)
  have idx: "map seg_index entries = [1 ..< Suc (length chunks)]"
    unfolding entries by (simp only: map_seg_index_segment_entries all_mp4) (simp add: names)
  have "map seg_path entries
      = map (\<lambda>name. to_relative (D @ [name])) (sort (fs_listdir fs' D))"
    unfolding entries by (simp only: map_seg_path_segment_entries all_mp4)
  then have paths: "map seg_path entries
      = map (\<lambda>name. to_relative (D @ [name])) (sort (map (chunk_name ?stem) [0 ..< length chunks]))"
    by (simp only: names sort_rev)
  from seg idx paths show "\<exists>chunks. ffmpeg_segment t out sd = Some chunks
      \<and> map seg_index entries = [1 ..< Suc (length chunks)]
      \<and> map seg_path entries
        = map (\<lambda>name. to_relative (D @ [name]))
            (sort (map (chunk_name (path_stem (last source_path))) [0 ..< length chunks]))"
    by blast
  show "fs_listdir fs' d = fs_listdir fs d" if "d \<noteq> D" "length D \<le> length d"
  proof -
    from dir that(2) have "fs_listdir fs1 d = fs_listdir fs d"
      by (rule fs_listdir_mkdir)
    moreover from that(1) have "fs_listdir fs' d = fs_listdir fs1 d"
      unfolding fs' by (intro fs_listdir_write_chunks_other) simp
    ultimately show ?thesis
      by simp
  qed
qed

lemma transcode_variant_output:
  assumes run: "transcode_variant t fs source_bytes output_path target sd = Inr (fs', info)"
    and nonempty: "output_path \<noteq> []"
  shows "\<exists>out. ffmpeg_transcode t source_bytes target (crf_for_height target) sd = Some out
      \<and> fs_lookup fs' output_path = Some (File out)"
    and "butlast output_path \<noteq> d \<Longrightarrow> length (butlast output_path) \<le> length d
      \<Longrightarrow> fs_listdir fs' d = fs_listdir fs d"
proof -
  from run obtain fs1 out where dir: "mkdir fs (butlast output_path) True = Inr fs1"
    and out: "ffmpeg_transcode t source_bytes target (crf_for_height target) sd = Some out"
    and fs': "fs' = fs_put fs1 output_path (File out)"
    by (auto simp: transcode_variant_def Let_def split: sum.splits option.splits)
  from nonempty have "fs_lookup fs' output_path = Some (File out)"
    by (simp add: fs' fs_lookup_put)
  with out show "\<exists>out. ffmpeg_transcode t source_bytes target (crf_for_height target) sd = Some out
      \<and> fs_lookup fs' output_path = Some (File out)"
    by blast
  show "fs_listdir fs' d = fs_listdir fs d"
    if "butlast output_path \<noteq> d" "length (butlast output_path) \<le> length d"
  proof -
    from dir that(2) have "fs_listdir fs1 d = fs_listdir fs d"
      by (rule fs_listdir_mkdir)
    moreover from that(1) have "fs_listdir fs' d = fs_listdir fs1 d"
      unfolding fs' by (intro fs_listdir_put_other) simp
    ultimately show ?thesis
      by simp
  qed
qed

lemma process_target_segments:
  assumes run: "process_target t [pid, ''variants''] [pid, ''segments''] source_bytes base_stem
      sd source_height fs target = Inr (fs', v)"
    and fresh: "fs_listdir fs [pid, ''segments'', str_int target @ ''p''] = []"
  shows "\<exists>out chunks entries.
        ffmpeg_transcode t source_bytes target (crf_for_height target) sd = Some out
      \<and> ffmpeg_segment t out sd = Some chunks
      \<and> v_segments v = Some entries
      \<and> map seg_index entries = [1 ..< Suc (length chunks)]
      \<and> map seg_path entries
        = map (\<lambda>name. to_relative ([pid, ''segments'', str_int target @ ''p''] @ [name]))
            (sort (map (chunk_name (path_stem (base_stem @ ''_'' @ str_int target @ ''p.mp4'')))
               [0 ..< length chunks]))"
    and "x \<noteq> str_int target @ ''p'' \<Longrightarrow>
      fs_listdir fs' [pid, ''segments'', x] = fs_listdir fs [pid, ''segments'', x]"
proof -
  let ?label = "str_int target @ ''p''"
  let ?vdir = "[pid, ''variants'', ?label]"
  let ?vpath = "[pid, ''variants'', ?label, base_stem @ ''_'' @ str_int target @ ''p.mp4'']"
  let ?D = "[pid, ''segments'', ?label]"
  from run obtain fs1 fs2 info entries where
    dir: "mkdir fs ?vdir True = Inr fs1"
    and tr: "transcode_variant t fs1 source_bytes ?vpath target sd = Inr (fs2, info)"
    and sg: "segment_video t fs2 ?vpath ?D sd = Inr (fs', entries)"
    and v: "v_segments v = Some entries"
    by (auto simp: process_target_def Let_def split: sum.splits prod.splits)
  have keep1: "fs_listdir fs1 [pid, ''segments'', y] = fs_listdir fs [pid, ''segments'', y]" for y
    using dir by (rule fs_listdir_mkdir) simp
  have keep2: "fs_listdir fs2 [pid, ''segments'', y] = fs_listdir fs1 [pid, ''segments'', y]" for y
    using tr by (rule transcode_variant_output(2)) simp_all
  from transcode_variant_output(1) [OF tr] obtain out where
    out: "ffmpeg_transcode t source_bytes target (crf_for_height target) sd = Some out"
    and bytes: "fs_lookup fs2 ?vpath = Some (File out)"
    by auto
  from fresh have fresh2: "fs_listdir fs2 ?D = []"
    by (simp add: keep1 keep2)
  from segment_video_fresh(1) [OF sg fresh2 bytes] out v
  show "\<exists>out chunks entries.
        ffmpeg_transcode t source_bytes target (crf_for_height target) sd = Some out
      \<and> ffmpeg_segment t out sd = Some chunks
      \<and> v_segments v = Some entries
      \<and> map seg_index entries = [1 ..< Suc (length chunks)]
      \<and> map seg_path entries
        = map (\<lambda>name. to_relative ([pid, ''segments'', str_int target @ ''p''] @ [name]))
            (sort (map (chunk_name (path_stem (base_stem @ ''_'' @ str_int target @ ''p.mp4'')))
               [0 ..< length chunks]))"
    by auto
  show "fs_listdir fs' [pid, ''segments'', x] = fs_listdir fs [pid, ''segments'', x]"
    if "x \<noteq> ?label"
  proof -
    from that have "fs_listdir fs' [pid, ''segments'', x] = fs_listdir fs2 [pid, ''segments'', x]"
      by (intro segment_video_fresh(2) [OF sg fresh2 bytes]) simp_all
    then show ?thesis
      by (simp add: keep1 keep2)
  qed
qed


lemma distinct_targets: "distinct (targets H R)"
  by (auto simp: targets_def eligible_resolutions_def requested_sorted_def)

lemma process_targets_segments:
  assumes "process_targets t [pid, ''variants''] [pid, ''segments''] source_bytes base_stem sd
      source_height ts fs acc = Inr (fs', vs)"
    and "distinct ts"
    and "\<forall>x \<in> set ts. fs_listdir fs [pid, ''segments'', str_int x @ ''p''] = []"
  shows "\<exists>new. vs = acc @ new
    \<and> list_all2
        (\<lambda>target v. \<exists>out chunks entries.
            ffmpeg_transcode t source_bytes target (crf_for_height target) sd = Some out
          \<and> ffmpeg_segment t out sd = Some chunks
          \<and> v_segments v = Some entries
          \<and> map seg_index entries = [1 ..< Suc (length chunks)]
          \<and> map seg_path entries
            = map (\<lambda>name. to_relative ([pid, ''segments'', str_int target @ ''p''] @ [name]))
                (sort (map (chunk_name (path_stem (base_stem @ ''_'' @ str_int target @ ''p.mp4'')))
                   [0 ..< length chunks])))
        ts new"
  using assms
proof (induction ts arbitrary: fs acc)
  case Nil
  then show ?case by simp
next
  case (Cons target rest)
  from Cons.prems(1) obtain fs1 v where
    one: "process_target t [pid, ''variants''] [pid, ''segments''] source_bytes base_stem sd
      source_height fs target = Inr (fs1, v)"
    and more: "process_targets t [pid, ''variants''] [pid, ''segments''] source_bytes base_stem sd
      source_height rest fs1 (acc @ [v]) = Inr (fs', vs)"
    by (auto split: sum.splits)
  from Cons.prems(3) have fresh: "fs_listdir fs [pid, ''segments'', str_int target @ ''p''] = []"
    by simp
  note here = process_target_segments(1) [OF one fresh]
  have "\<forall>x \<in> set rest. fs_listdir fs1 [pid, ''segments'', str_int x @ ''p''] = []"
  proof
    fix x
    assume x: "x \<in> set rest"
    with Cons.prems(2) have "x \<noteq> target"
      by auto
    then have "str_int x @ ''p'' \<noteq> str_int target @ ''p''"
      using str_int_inj [of x target] by auto
    then have "fs_listdir fs1 [pid, ''segments'', str_int x @ ''p'']
        = fs_listdir fs [pid, ''segments'', str_int x @ ''p'']"
      by (rule process_target_segments(2) [OF one fresh])
    with x Cons.prems(3) show "fs_listdir fs1 [pid, ''segments'', str_int x @ ''p''] = []"
      by simp
  qed
  with Cons.IH [OF more] Cons.prems(2) obtain new where
    "vs = (acc @ [v]) @ new" and "list_all2
        (\<lambda>target v. \<exists>out chunks entries.
            ffmpeg_transcode t source_bytes target (crf_for_height target) sd = Some out
          \<and> ffmpeg_segment t out sd = Some chunks
          \<and> v_segments v = Some entries
          \<and> map seg_index entries = [1 ..< Suc (length chunks)]
          \<and> map seg_path entries
            = map (\<lambda>name. to_relative ([pid, ''segments'', str_int target @ ''p''] @ [name]))
                (sort (map (chunk_name (path_stem (base_stem @ ''_'' @ str_int target @ ''p.mp4'')))
                   [0 ..< length chunks])))
        rest new"
    by auto
  with here show ?case
    by (intro exI [of _ "v # new"]) simp
qed

lemma mkdir_exclusive_new:
  "mkdir fs p False = Inr fs' \<Longrightarrow> fs_lookup fs p = None"
  by (cases "fs_lookup fs p") (simp_all add: mkdir_def)

lemma fs_listdir_below_missing:
  assumes wf: "\<forall>(q, n) \<in> set fs. q \<noteq> [] \<longrightarrow> fs_lookup fs (butlast q) = Some Dir"
    and missing: "fs_lookup fs d = None"
  shows "fs_listdir fs (d @ [x]) = []"
proof -
  have "\<not> (q \<noteq> [] \<and> butlast q = d @ [x])" if "(q, n) \<in> set fs" for q n
  proof
    assume q: "q \<noteq> [] \<and> butlast q = d @ [x]"
    with wf that have "fs_lookup fs (d @ [x]) = Some Dir"
      by fastforce
    then have "map_of fs (d @ [x]) = Some Dir"
      by (simp add: fs_lookup_def)
    then have "(d @ [x], Dir) \<in> set fs"
      by (rule map_of_SomeD)
    with wf have "fs_lookup fs (butlast (d @ [x])) = Some Dir"
      by fastforce
    with missing show False
      by simp
  qed
  then have "filter (\<lambda>(q, _). q \<noteq> [] \<and> butlast q = d @ [x]) fs = []"
    by (auto simp: filter_empty_conv)
  then show ?thesis
    by (simp add: fs_listdir_def)
qed

section \<open>Claims about the segments\<close>

text \<open>
  C7. In a run of the pipeline that succeeds, the manifest has one variant for each
  planned height, in the order of the plan. For each of them, with \<open>chunks\<close> the chunk
  files that the segmenter produced from the transcoded file of that height, the indices
  of the segment list are exactly \<open>1..N\<close>, \<open>N\<close> the number of these chunks, and the
  paths of the list, in the order of the indices, are the generated chunk file names
  \<open><stem>_part_000.mp4\<close>, \<open><stem>_part_001.mp4\<close>, ... in lexicographic order, each
  below the segment directory of the height. The media directory at the start may hold
  anything, provided every entry lies in a directory.
\<close>

theorem segments_of_run_indexed:
  assumes wf: "\<forall>(q, n) \<in> set fs. q \<noteq> [] \<longrightarrow> fs_lookup fs (butlast q) = Some Dir"
    and run: "upload_try t fs playlist_id safe_filename uploaded_bytes requested_resolutions
      segment_duration = Inr (fs', m)"
  shows "\<exists>source_info vs.
      probe_video (ffprobe t uploaded_bytes) = Inr source_info
    \<and> m_variants m = Some vs
    \<and> list_all2
        (\<lambda>target v. \<exists>out chunks entries.
            ffmpeg_transcode t uploaded_bytes target (crf_for_height target) segment_duration
              = Some out
          \<and> ffmpeg_segment t out segment_duration = Some chunks
          \<and> v_segments v = Some entries
          \<and> map seg_index entries = [1 ..< Suc (length chunks)]
          \<and> map seg_path entries
            = map (\<lambda>name. to_relative ([playlist_id, ''segments'', str_int target @ ''p''] @ [name]))
                (sort (map (chunk_name
                     (path_stem (path_stem safe_filename @ ''_'' @ str_int target @ ''p.mp4'')))
                   [0 ..< length chunks])))
        (targets (vi_height source_info) requested_resolutions) vs"
proof -
  from run obtain fs1 fs2 fs3 source_info fs5 vs where
    d1: "mkdir fs [playlist_id, ''source''] False = Inr fs1"
    and d2: "mkdir fs1 [playlist_id, ''variants''] False = Inr fs2"
    and d3: "mkdir fs2 [playlist_id, ''segments''] False = Inr fs3"
    and probe: "probe_video (ffprobe t uploaded_bytes) = Inr source_info"
    and loop: "process_targets t [playlist_id, ''variants''] [playlist_id, ''segments'']
        uploaded_bytes (path_stem safe_filename) segment_duration (vi_height source_info)
        (targets (vi_height source_info) requested_resolutions)
        (fs_put fs3 [playlist_id, ''source'', safe_filename] (File uploaded_bytes)) []
        = Inr (fs5, vs)"
    and m: "m_variants m = Some vs"
    by (auto simp: upload_try_def Let_def split: sum.splits prod.splits)
  let ?fs4 = "fs_put fs3 [playlist_id, ''source'', safe_filename] (File uploaded_bytes)"
  from d3 have "fs_lookup fs2 [playlist_id, ''segments''] = None"
    by (rule mkdir_exclusive_new)
  have missing: "fs_lookup fs [playlist_id, ''segments''] = None"
  proof (cases "fs_lookup fs [playlist_id, ''segments'']")
    case (Some n)
    with d1 have "fs_lookup fs1 [playlist_id, ''segments''] = Some n"
      by (rule fs_lookup_mkdir)
    with d2 have "fs_lookup fs2 [playlist_id, ''segments''] = Some n"
      by (rule fs_lookup_mkdir)
    with \<open>fs_lookup fs2 [playlist_id, ''segments''] = None\<close> show ?thesis
      by simp
  qed simp
  have fresh: "fs_listdir ?fs4 [playlist_id, ''segments'', x] = []" for x
  proof -
    from fs_listdir_below_missing [OF wf missing, of x]
    have "fs_listdir fs [playlist_id, ''segments'', x] = []"
      by simp
    moreover from d1 have "fs_listdir fs1 [playlist_id, ''segments'', x]
        = fs_listdir fs [playlist_id, ''segments'', x]"
      by (rule fs_listdir_mkdir) simp
    moreover from d2 have "fs_listdir fs2 [playlist_id, ''segments'', x]
        = fs_listdir fs1 [playlist_id, ''segments'', x]"
      by (rule fs_listdir_mkdir) simp
    moreover from d3 have "fs_listdir fs3 [playlist_id, ''segments'', x]
        = fs_listdir fs2 [playlist_id, ''segments'', x]"
      by (rule fs_listdir_mkdir) simp
    moreover have "fs_listdir ?fs4 [playlist_id, ''segments'', x]
        = fs_listdir fs3 [playlist_id, ''segments'', x]"
      by (rule fs_listdir_put_other) simp
    ultimately show ?thesis
      by simp
  qed
  from process_targets_segments [OF loop distinct_targets] fresh m probe
  show ?thesis
    by auto
qed

theorem segments_of_run_indexed_witness:
  "\<exists>tree m vs.
      upload_try
        \<lparr> ffprobe = (\<lambda>bytes. FFprobePayload (Some 1280) (Some 720) (Some 50)),
          ffmpeg_transcode = (\<lambda>bytes height crf duration. Some ''v''),
          ffmpeg_segment = (\<lambda>bytes duration. Some [''s'', ''t'']),
          json_dump = (\<lambda>m. [''{'', ''}'']),
          now_isoformat = ''t'', now_timestamp = 0,
          py_truediv = (\<lambda>a b. 0), py_round2 = (\<lambda>x. x) \<rparr>
        [] ''a-1'' ''a.mp4'' ''u'' [1080, 360] 30 = Inr (tree, m)
    \<and> m_variants m = Some vs
    \<and> map (\<lambda>v. map (\<lambda>e. (seg_index e, seg_path e)) (get_default (v_segments v) [])) vs
      = [[(1, ''a-1/segments/720p/a_720p_part_000.mp4''),
          (2, ''a-1/segments/720p/a_720p_part_001.mp4'')],
         [(1, ''a-1/segments/360p/a_360p_part_000.mp4''),
          (2, ''a-1/segments/360p/a_360p_part_001.mp4'')]]"
proof -
  define t where "t = \<lparr> ffprobe = (\<lambda>bytes :: string. FFprobePayload (Some 1280) (Some 720) (Some 50)),
          ffmpeg_transcode = (\<lambda>(bytes :: string) (height :: int) (crf :: int) (duration :: int). Some ''v''),
          ffmpeg_segment = (\<lambda>(bytes :: string) (duration :: int). Some [''s'', ''t'']),
          json_dump = (\<lambda>m :: manifest. [''{'', ''}'']),
          now_isoformat = ''t'', now_timestamp = 0,
          py_truediv = (\<lambda>a b. 0), py_round2 = (\<lambda>x. x) \<rparr>"
  define run where "run = upload_try t [] ''a-1'' ''a.mp4'' ''u'' [1080, 360] 30"
  have "\<not> isl run"
    unfolding run_def t_def by code_simp
  then obtain tree m where r: "run = Inr (tree, m)"
    by (cases run) auto
  have wf: "\<forall>(q, n) \<in> set ([] :: fs). q \<noteq> [] \<longrightarrow> fs_lookup [] (butlast q) = Some Dir"
    by simp
  have probed: "map_sum id vi_height (probe_video (ffprobe t ''u'')) = Inr 720"
    unfolding t_def by code_simp
  have planned: "targets 720 [1080, 360] = [720, 360]"
    by code_simp
  have paths720: "map (\<lambda>name. to_relative ([''a-1'', ''segments'', str_int 720 @ ''p''] @ [name]))
      (sort (map (chunk_name (path_stem (path_stem ''a.mp4'' @ ''_'' @ str_int 720 @ ''p.mp4'')))
        [0 ..< length [''s'', ''t'']]))
    = [''a-1/segments/720p/a_720p_part_000.mp4'', ''a-1/segments/720p/a_720p_part_001.mp4'']"
    by code_simp
  have paths360: "map (\<lambda>name. to_relative ([''a-1'', ''segments'', str_int 360 @ ''p''] @ [name]))
      (sort (map (chunk_name (path_stem (path_stem ''a.mp4'' @ ''_'' @ str_int 360 @ ''p.mp4'')))
        [0 ..< length [''s'', ''t'']]))
    = [''a-1/segments/360p/a_360p_part_000.mp4'', ''a-1/segments/360p/a_360p_part_001.mp4'']"
    by code_simp
  have indices: "[1 ..< Suc (length [''s'', ''t''])] = [1, 2]"
    by code_simp
  have pairs: "map (\<lambda>e. (seg_index e, seg_path e)) es = zip (map seg_index es) (map seg_path es)" for es
    by (induction es) simp_all
  from segments_of_run_indexed [OF wf r [unfolded run_def]]
  obtain source_info vs where pv: "probe_video (ffprobe t ''u'') = Inr source_info"
    and mv: "m_variants m = Some vs"
    and la: "list_all2
             (\<lambda>target v. \<exists>out chunks entries.
                 ffmpeg_transcode t ''u'' target (crf_for_height target) 30 = Some out
               \<and> ffmpeg_segment t out 30 = Some chunks
               \<and> v_segments v = Some entries
               \<and> map seg_index entries = [1 ..< Suc (length chunks)]
               \<and> map seg_path entries
                 = map (\<lambda>name. to_relative ([''a-1'', ''segments'', str_int target @ ''p''] @ [name]))
                     (sort (map (chunk_name
                          (path_stem (path_stem ''a.mp4'' @ ''_'' @ str_int target @ ''p.mp4'')))
                        [0 ..< length chunks])))
             (targets (vi_height source_info) [1080, 360]) vs"
    by (elim exE conjE)
  from probed pv have "vi_height source_info = 720"
    by simp
  with la planned obtain v1 v2 where vs: "vs = [v1, v2]"
    and e1: "\<exists>out chunks entries.
                 ffmpeg_transcode t ''u'' 720 (crf_for_height 720) 30 = Some out
               \<and> ffmpeg_segment t out 30 = Some chunks
               \<and> v_segments v1 = Some entries
               \<and> map seg_index entries = [1 ..< Suc (length chunks)]
               \<and> map seg_path entries
                 = map (\<lambda>name. to_relative ([''a-1'', ''segments'', str_int 720 @ ''p''] @ [name]))
                     (sort (map (chunk_name
                          (path_stem (path_stem ''a.mp4'' @ ''_'' @ str_int 720 @ ''p.mp4'')))
                        [0 ..< length chunks]))"
    and e2: "\<exists>out chunks entries.
                 ffmpeg_transcode t ''u'' 360 (crf_for_height 360) 30 = Some out
               \<and> ffmpeg_segment t out 30 = Some chunks
               \<and> v_segments v2 = Some entries
               \<and> map seg_index entries = [1 ..< Suc (length chunks)]
               \<and> map seg_path entries
                 = map (\<lambda>name. to_relative ([''a-1'', ''segments'', str_int 360 @ ''p''] @ [name]))
                     (sort (map (chunk_name
                          (path_stem (path_stem ''a.mp4'' @ ''_'' @ str_int 360 @ ''p.mp4'')))
                        [0 ..< length chunks]))"
    by (simp only: list_all2_Cons1 list_all2_Nil) blast
  from e1 obtain entries1 where s1: "v_segments v1 = Some entries1"
    and i1: "map seg_index entries1 = [1 ..< Suc (length [''s'', ''t''])]"
    and p1: "map seg_path entries1
        = map (\<lambda>name. to_relative ([''a-1'', ''segments'', str_int 720 @ ''p''] @ [name]))
            (sort (map (chunk_name (path_stem (path_stem ''a.mp4'' @ ''_'' @ str_int 720 @ ''p.mp4'')))
               [0 ..< length [''s'', ''t'']]))"
    unfolding t_def by (simp only: tools.simps option.inject) blast
  from e2 obtain entries2 where s2: "v_segments v2 = Some entries2"
    and i2: "map seg_index entries2 = [1 ..< Suc (length [''s'', ''t''])]"
    and p2: "map seg_path entries2
        = map (\<lambda>name. to_relative ([''a-1'', ''segments'', str_int 360 @ ''p''] @ [name]))
            (sort (map (chunk_name (path_stem (path_stem ''a.mp4'' @ ''_'' @ str_int 360 @ ''p.mp4'')))
               [0 ..< length [''s'', ''t'']]))"
    unfolding t_def by (simp only: tools.simps option.inject) blast
  have "map (\<lambda>v. map (\<lambda>e. (seg_index e, seg_path e)) (get_default (v_segments v) [])) vs
      = [[(1, ''a-1/segments/720p/a_720p_part_000.mp4''),
          (2, ''a-1/segments/720p/a_720p_part_001.mp4'')],
         [(1, ''a-1/segments/360p/a_360p_part_000.mp4''),
          (2, ''a-1/segments/360p/a_360p_part_001.mp4'')]]"
    by (simp only: vs s1 s2 pairs i1 i2 p1 p2 paths720 paths360 indices
          list.map get_default_def option.case zip.simps list.case)
  with r mv show ?thesis
    unfolding run_def t_def by - ((rule exI)+, intro conjI, assumption+)
qed

section \<open>Claims about the playlist directory and the manifest file\<close>

text \<open>
  C3. A run whose playlist directory already holds a \<^verbatim>\<open>source\<close> directory, as it
  does after an earlier run with the same playlist ID, fails at the first exclusive
  \<^verbatim>\<open>mkdir\<close> with \<^verbatim>\<open>FileExistsError\<close>. The handler of line 568 then calls
  \<^verbatim>\<open>cleanup_playlist\<close> on the playlist directory, which removes the tree of the
  earlier run: afterwards no path below the playlist directory exists, the earlier
  manifest included.
\<close>

theorem upload_collision_removes_first_run:
  assumes "fs_lookup fs [playlist_id] = Some Dir"
    and "fs_lookup fs [playlist_id, ''source''] \<noteq> None"
  shows "upload_pipeline t fs playlist_id safe_filename uploaded_bytes requested_resolutions
           segment_duration
         = (Failed FileExistsError, fs_rmtree fs [playlist_id])
    \<and> fs_lookup (fs_rmtree fs [playlist_id]) [playlist_id, ''manifest.json''] = None
    \<and> (\<forall>q. prefix [playlist_id] q \<longrightarrow> fs_lookup (fs_rmtree fs [playlist_id]) q = None)"
proof -
  from assms(2) have "mkdir fs [playlist_id, ''source''] False = Inl FileExistsError"
    by (auto simp: mkdir_def)
  then have "upload_try t fs playlist_id safe_filename uploaded_bytes requested_resolutions
      segment_duration = Inl (FileExistsError, fs)"
    by (simp add: upload_try_def)
  with assms(1) have run: "upload_pipeline t fs playlist_id safe_filename uploaded_bytes
      requested_resolutions segment_duration
      = (Failed FileExistsError, fs_rmtree fs [playlist_id])"
    by (simp add: upload_pipeline_def cleanup_playlist_def)
  have gone: "fs_lookup (fs_rmtree fs [playlist_id]) q = None" if "prefix [playlist_id] q" for q
    using that by (auto simp: fs_lookup_rmtree)
  from run gone show ?thesis
    by simp
qed

theorem upload_collision_removes_first_run_witness:
  "(let t = \<lparr> ffprobe = (\<lambda>bytes. FFprobePayload (Some 640) (Some 360) (Some 10)),
             ffmpeg_transcode = (\<lambda>bytes height crf duration. Some ''v''),
             ffmpeg_segment = (\<lambda>bytes duration. Some [''s'']),
             json_dump = (\<lambda>m. [''{'', ''}'']),
             now_isoformat = ''t'', now_timestamp = 0,
             py_truediv = (\<lambda>a b. 0), py_round2 = (\<lambda>x. x) \<rparr>;
        first = upload_pipeline t [] ''a-1'' ''a.mp4'' ''u'' [720, 360] 30;
        second = upload_pipeline t (snd first) ''a-1'' ''a.mp4'' ''u'' [720, 360] 30
    in fst first = Completed
       \<and> fs_lookup (snd first) [''a-1'', ''manifest.json''] = Some (File ''{}'')
       \<and> fs_lookup (snd first) [''a-1'', ''source'', ''a.mp4''] = Some (File ''u'')
       \<and> fst second = Failed FileExistsError
       \<and> fs_lookup (snd second) [''a-1'', ''manifest.json''] = None
       \<and> fs_lookup (snd second) [''a-1'', ''source'', ''a.mp4''] = None
       \<and> snd second = [])"
proof -
  let ?t = "\<lparr> ffprobe = (\<lambda>bytes. FFprobePayload (Some 640) (Some 360) (Some 10)),
             ffmpeg_transcode = (\<lambda>bytes height crf duration. Some ''v''),
             ffmpeg_segment = (\<lambda>bytes duration. Some [''s'']),
             json_dump = (\<lambda>m. [''{'', ''}'']),
             now_isoformat = ''t'', now_timestamp = 0,
             py_truediv = (\<lambda>a b. 0), py_round2 = (\<lambda>x. x) \<rparr>"
  let ?tree = "[([''a-1'', ''manifest.json''], File ''{}''),
     ([''a-1'', ''segments'', ''360p'', ''a_360p_part_000.mp4''], File ''s''),
     ([''a-1'', ''segments'', ''360p''], Dir),
     ([''a-1'', ''variants'', ''360p'', ''a_360p.mp4''], File ''v''),
     ([''a-1'', ''variants'', ''360p''], Dir),
     ([''a-1'', ''source'', ''a.mp4''], File ''u''),
     ([''a-1'', ''segments''], Dir), ([''a-1'', ''variants''], Dir),
     ([''a-1'', ''source''], Dir), ([''a-1''], Dir)]"
  have first: "upload_pipeline ?t [] ''a-1'' ''a.mp4'' ''u'' [720, 360] 30 = (Completed, ?tree)"
    by code_simp
  have h1: "fs_lookup ?tree [''a-1''] = Some Dir"
    by (simp add: fs_lookup_def)
  have h2: "fs_lookup ?tree [''a-1'', ''source''] \<noteq> None"
    by (simp add: fs_lookup_def)
  from upload_collision_removes_first_run [OF h1 h2, of ?t "''a.mp4''" "''u''" "[720, 360]" 30]
  have second: "upload_pipeline ?t ?tree ''a-1'' ''a.mp4'' ''u'' [720, 360] 30
      = (Failed FileExistsError, fs_rmtree ?tree [''a-1''])"
    by blast
  have rm: "fs_rmtree ?tree [''a-1''] = []"
    by (simp add: fs_rmtree_def)
  show ?thesis
    unfolding Let_def first snd_conv fst_conv second rm
    by (simp add: fs_lookup_def)
qed

text \<open>
  C4, as stated, fails: the manifest path itself is opened for writing, so its first
  state during a save is the empty file, which is neither no manifest, nor the previous
  manifest, nor the complete new one. This is so in a fresh playlist directory and over
  an earlier manifest alike.
\<close>

theorem save_manifest_partial_counterexample:
  "\<not> (\<forall>state \<in> set (write_states [] [''p'', ''manifest.json''] [''{'', ''}'']).
        fs_lookup state [''p'', ''manifest.json''] \<in> {None, Some (File ''{}'')})
   \<and> \<not> (\<forall>state \<in> set (write_states [([''p'', ''manifest.json''], File ''old'')]
                          [''p'', ''manifest.json''] [''{'', ''}'']).
        fs_lookup state [''p'', ''manifest.json'']
          \<in> {None, Some (File ''old''), Some (File ''{}'')})"
  by (simp add: write_states_def fs_lookup_def fs_put_def upt_rec)

text \<open>
  C4, amended. Saving writes into the manifest path itself: after the open the file is
  empty, after the \<open>k\<close>-th chunk it holds the first \<open>k\<close> chunks of the document, and
  after the last chunk the complete document. No other path of the tree changes at any
  point, so no temporary file is written and nothing is renamed.
\<close>

theorem save_manifest_in_place:
  assumes "manifest_path \<noteq> []"
  shows "fs_lookup (write_states fs manifest_path chunks ! 0) manifest_path = Some (File [])
    \<and> (\<forall>k \<le> length chunks.
          fs_lookup (write_states fs manifest_path chunks ! k) manifest_path
            = Some (File (concat (take k chunks))))
    \<and> fs_lookup (save_manifest fs manifest_path chunks) manifest_path
          = Some (File (concat chunks))
    \<and> (\<forall>k \<le> length chunks. \<forall>q. q \<noteq> manifest_path \<longrightarrow>
          fs_lookup (write_states fs manifest_path chunks ! k) q = fs_lookup fs q)"
  using assms by (simp add: nth_write_states save_manifest_put fs_lookup_put)

theorem save_manifest_in_place_witness:
  "[''p'', ''manifest.json''] \<noteq> []
   \<and> fs_lookup (write_states [] [''p'', ''manifest.json''] [''{'', ''}''] ! 0)
         [''p'', ''manifest.json''] = Some (File [])
   \<and> fs_lookup (write_states [] [''p'', ''manifest.json''] [''{'', ''}''] ! 1)
         [''p'', ''manifest.json''] = Some (File ''{'')
   \<and> fs_lookup (save_manifest [] [''p'', ''manifest.json''] [''{'', ''}''])
         [''p'', ''manifest.json''] = Some (File ''{}'')"
proof -
  have h: "[''p'', ''manifest.json''] \<noteq> []"
    by simp
  note t = save_manifest_in_place [OF h, of "[]" "[''{'', ''}'']"]
  from t have a: "fs_lookup (write_states [] [''p'', ''manifest.json''] [''{'', ''}''] ! 0)
         [''p'', ''manifest.json''] = Some (File [])"
    by blast
  from t have "\<forall>k \<le> length [''{'', ''}''].
      fs_lookup (write_states [] [''p'', ''manifest.json''] [''{'', ''}''] ! k)
        [''p'', ''manifest.json''] = Some (File (concat (take k [''{'', ''}''])))"
    by blast
  then have "fs_lookup (write_states [] [''p'', ''manifest.json''] [''{'', ''}''] ! 1)
        [''p'', ''manifest.json''] = Some (File (concat (take 1 [''{'', ''}''])))"
    by simp
  then have b: "fs_lookup (write_states [] [''p'', ''manifest.json''] [''{'', ''}''] ! 1)
        [''p'', ''manifest.json''] = Some (File ''{'')"
    by simp
  from t have "fs_lookup (save_manifest [] [''p'', ''manifest.json''] [''{'', ''}''])
         [''p'', ''manifest.json''] = Some (File (concat [''{'', ''}'']))"
    by blast
  then have c: "fs_lookup (save_manifest [] [''p'', ''manifest.json''] [''{'', ''}''])
         [''p'', ''manifest.json''] = Some (File ''{}'')"
    by simp
  from h a b c show ?thesis
    by blast
qed

section \<open>Claims about the catalog\<close>

lemma scan_manifests_skips:
  "mf_load file = RaisedOSError \<or> mf_load file = RaisedJSONDecodeError \<Longrightarrow>
   scan_manifests py_format (file # rest) manifests = scan_manifests py_format rest manifests"
  by auto

lemma keyed_items:
  "keyed py_float items = Inr ks \<Longrightarrow>
   map snd ks = items \<and> (\<forall>(k, item) \<in> set ks. sort_key_of py_float item = Inr k)"
  by (induction items arbitrary: ks) (auto split: sum.splits)

text \<open>
  What holds of the listing when it returns: its entries come in descending order of
  their keys, entries with equal keys in the order of their manifest paths.
\<close>

lemma list_manifests_descending:
  assumes "list_manifests py_format py_float True files = Inr entries"
  shows "\<exists>ks. map snd ks = entries
    \<and> (\<forall>(k, item) \<in> set ks. sort_key_of py_float item = Inr k)
    \<and> sorted_wrt (\<lambda>a b. fst a \<ge> fst b) ks"
proof -
  from assms obtain manifests ks where
    k: "keyed py_float manifests = Inr ks" and e: "entries = map snd (py_sorted_reverse fst ks)"
    by (auto simp: list_manifests_def split: sum.splits)
  from keyed_items [OF k] have "\<forall>(k, item) \<in> set (py_sorted_reverse fst ks).
      sort_key_of py_float item = Inr k"
    by simp
  with e descending_py_sorted_reverse [of fst ks] show ?thesis
    by blast
qed

lemma created_at_ts_absent:
  assumes "catalog_entry_of py_format file (JObj items) = Inr entry"
    and "map_of items ''created_at_ts'' = None"
  shows "ce_created_at_ts entry
    = (case mf_mtime file of Some mtime \<Rightarrow> JNum (FloatNum mtime) | None \<Rightarrow> JNum (FloatNum 0))"
  using assms
  by (auto simp: catalog_entry_of_def dict_get_def Let_def split: sum.splits)

text \<open>
  C8. The listing skips a manifest that cannot be read or decoded, and sorts what it
  returns as the claim says (lemmas \<open>scan_manifests_skips\<close>,
  \<open>list_manifests_descending\<close>, \<open>created_at_ts_absent\<close>). But a manifest that loads
  and is malformed is not skipped: beside a sound manifest, a file holding \<^verbatim>\<open>[]\<close>, a
  file holding an object whose \<^verbatim>\<open>source\<close> is \<^verbatim>\<open>null\<close>, a file holding an object
  whose \<^verbatim>\<open>variants\<close> is \<^verbatim>\<open>null\<close>, and a file that is not UTF-8 each make the whole
  listing fail.
\<close>

theorem list_manifests_fails_on_malformed:
  "list_manifests py_format py_float True
     [\<lparr> mf_dir = ''a'', mf_load = Loaded (JObj []), mf_mtime = Some 1 \<rparr>,
      \<lparr> mf_dir = ''b'', mf_load = Loaded (JArr []), mf_mtime = Some 2 \<rparr>]
     = Inl AttributeError
   \<and> list_manifests py_format py_float True
     [\<lparr> mf_dir = ''a'', mf_load = Loaded (JObj []), mf_mtime = Some 1 \<rparr>,
      \<lparr> mf_dir = ''b'', mf_load = Loaded (JObj [(''source'', JNull)]), mf_mtime = Some 2 \<rparr>]
     = Inl AttributeError
   \<and> list_manifests py_format py_float True
     [\<lparr> mf_dir = ''a'', mf_load = Loaded (JObj []), mf_mtime = Some 1 \<rparr>,
      \<lparr> mf_dir = ''b'', mf_load = Loaded (JObj [(''variants'', JNull)]), mf_mtime = Some 2 \<rparr>]
     = Inl TypeError
   \<and> list_manifests py_format py_float True
     [\<lparr> mf_dir = ''a'', mf_load = Loaded (JObj []), mf_mtime = Some 1 \<rparr>,
      \<lparr> mf_dir = ''b'', mf_load = RaisedOther, mf_mtime = Some 2 \<rparr>]
     = Inl LoadError"
  by (simp add: list_manifests_def catalog_entry_of_def dict_get_def json_iter_def
      json_or_def Let_def)

end
